theory Spec2Isabelle
  imports Complex_Main "HOL-Library.Log_Nat"
begin

section \<open>Time values and the calendar of the JavaScript Date object\<close>

text \<open>
  A JavaScript \<open>Date\<close> holds a time value: the number of milliseconds since the epoch,
  here an unbounded integer (the range limit of \<open>TimeClip\<close> is not modelled). The
  abstract operations below are those of ECMA-262, section "Date Objects", with the
  names used there. The time zone \<open>z\<close> of the host is the first argument of every method
  that reads or writes local time.
\<close>

definition msPerDay :: int where "msPerDay = 86400000"
definition msPerHour :: int where "msPerHour = 3600000"
definition msPerMinute :: int where "msPerMinute = 60000"
definition msPerSecond :: int where "msPerSecond = 1000"

definition Day :: "int \<Rightarrow> int" where
  "Day t = t div msPerDay"

definition TimeWithinDay :: "int \<Rightarrow> int" where
  "TimeWithinDay t = t mod msPerDay"

definition DaysInYear :: "int \<Rightarrow> int" where
  "DaysInYear y =
     (if y mod 4 \<noteq> 0 then 365
      else if y mod 100 \<noteq> 0 then 366
      else if y mod 400 \<noteq> 0 then 365
      else 366)"

definition DayFromYear :: "int \<Rightarrow> int" where
  "DayFromYear y =
     365 * (y - 1970) + (y - 1969) div 4 - (y - 1901) div 100 + (y - 1601) div 400"

lemma div_succ:
  fixes a n :: int
  assumes n: "0 < n"
  shows "(a + 1) div n = a div n + (if (a + 1) mod n = 0 then 1 else 0)"
proof -
  define q where "q = a div n"
  define r where "r = a mod n"
  have a: "a = n * q + r" unfolding q_def r_def by simp
  have r: "0 \<le> r" "r < n" unfolding r_def using n by simp_all
  show ?thesis
  proof (cases "r = n - 1")
    case True
    then have e: "a + 1 = n * (q + 1) + 0" using a by (simp add: algebra_simps)
    have "(a + 1) div n = q + 1" using int_div_pos_eq [OF e _ n] by simp
    moreover have "(a + 1) mod n = 0" using int_mod_pos_eq [OF e _ n] by simp
    ultimately show ?thesis unfolding q_def by simp
  next
    case False
    then have r': "0 \<le> r + 1" "r + 1 < n" using r by simp_all
    have e: "a + 1 = n * q + (r + 1)" using a by simp
    have "(a + 1) div n = q" using int_div_pos_eq [OF e r'] .
    moreover have "(a + 1) mod n = r + 1" using int_mod_pos_eq [OF e r'] .
    ultimately show ?thesis unfolding q_def using r by simp
  qed
qed

lemma mod_sub_mult: "(a - n * k) mod n = a mod n" for a n k :: int
  by algebra

lemma DayFromYear_next: "DayFromYear (y + 1) = DayFromYear y + DaysInYear y"
proof -
  have m4: "(y - 1968) mod 4 = y mod 4" using mod_sub_mult [of y 4 492] by simp
  have m100: "(y - 1900) mod 100 = y mod 100" using mod_sub_mult [of y 100 19] by simp
  have m400: "(y - 1600) mod 400 = y mod 400" using mod_sub_mult [of y 400 4] by simp
  have d4: "(y + 1 - 1969) div 4 = (y - 1969) div 4 + (if y mod 4 = 0 then 1 else 0)"
    using div_succ [of 4 "y - 1969"] m4 by simp
  have d100: "(y + 1 - 1901) div 100 = (y - 1901) div 100 + (if y mod 100 = 0 then 1 else 0)"
    using div_succ [of 100 "y - 1901"] m100 by simp
  have d400: "(y + 1 - 1601) div 400 = (y - 1601) div 400 + (if y mod 400 = 0 then 1 else 0)"
    using div_succ [of 400 "y - 1601"] m400 by simp
  have "(4::int) dvd 100" by simp
  then have c1: "y mod 100 = 0 \<Longrightarrow> y mod 4 = 0"
    using dvd_trans [of 4 100 y] by (simp add: mod_eq_0_iff_dvd)
  have "(100::int) dvd 400" by simp
  then have c2: "y mod 400 = 0 \<Longrightarrow> y mod 100 = 0"
    using dvd_trans [of 100 400 y] by (simp add: mod_eq_0_iff_dvd)
  show ?thesis
    unfolding DayFromYear_def DaysInYear_def d4 d100 d400 using c1 c2 by auto
qed

lemma DayFromYear_less_next: "DayFromYear y < DayFromYear (y + 1)"
  unfolding DayFromYear_next DaysInYear_def by simp

text \<open>
  \<open>YearFromTime t\<close> is the largest year \<open>y\<close> with \<open>DayFromYear y \<le> Day t\<close>. It is
  found by walking up from a year that is certainly not after the answer.
\<close>

function year_search :: "int \<Rightarrow> int \<Rightarrow> int" where
  "year_search d y = (if DayFromYear (y + 1) \<le> d then year_search d (y + 1) else y)"
  by pat_completeness auto
termination
proof (relation "measure (\<lambda>(d, y). nat (d - DayFromYear y))")
  show "wf (measure (\<lambda>(d, y). nat (d - DayFromYear y)))" by simp
next
  fix d y :: int
  assume "DayFromYear (y + 1) \<le> d"
  then show "((d, y + 1), (d, y)) \<in> measure (\<lambda>(d, y). nat (d - DayFromYear y))"
    using DayFromYear_less_next [of y] by simp
qed

declare year_search.simps [simp del]

definition YearFromDay :: "int \<Rightarrow> int" where
  "YearFromDay d = year_search d (1970 + (if 0 \<le> d then d div 366 else d div 365))"

definition YearFromTime :: "int \<Rightarrow> int" where
  "YearFromTime t = YearFromDay (Day t)"

definition InLeapYear :: "int \<Rightarrow> int" where
  "InLeapYear t = (if DaysInYear (YearFromTime t) = 365 then 0 else 1)"

definition DayWithinYear :: "int \<Rightarrow> int" where
  "DayWithinYear t = Day t - DayFromYear (YearFromTime t)"

definition MonthFromTime :: "int \<Rightarrow> int" where
  "MonthFromTime t =
     (let d = DayWithinYear t; l = InLeapYear t in
      if d < 31 then 0
      else if d < 59 + l then 1
      else if d < 90 + l then 2
      else if d < 120 + l then 3
      else if d < 151 + l then 4
      else if d < 181 + l then 5
      else if d < 212 + l then 6
      else if d < 243 + l then 7
      else if d < 273 + l then 8
      else if d < 304 + l then 9
      else if d < 334 + l then 10
      else 11)"

definition DateFromTime :: "int \<Rightarrow> int" where
  "DateFromTime t =
     (let d = DayWithinYear t; l = InLeapYear t; m = MonthFromTime t in
      if m = 0 then d + 1
      else if m = 1 then d - 30
      else if m = 2 then d - 58 - l
      else if m = 3 then d - 89 - l
      else if m = 4 then d - 119 - l
      else if m = 5 then d - 150 - l
      else if m = 6 then d - 180 - l
      else if m = 7 then d - 211 - l
      else if m = 8 then d - 242 - l
      else if m = 9 then d - 272 - l
      else if m = 10 then d - 303 - l
      else d - 333 - l)"

definition HourFromTime :: "int \<Rightarrow> int" where
  "HourFromTime t = (t div msPerHour) mod 24"

definition MinFromTime :: "int \<Rightarrow> int" where
  "MinFromTime t = (t div msPerMinute) mod 60"

definition SecFromTime :: "int \<Rightarrow> int" where
  "SecFromTime t = (t div msPerSecond) mod 60"

definition msFromTime :: "int \<Rightarrow> int" where
  "msFromTime t = t mod msPerSecond"

definition MakeTime :: "int \<Rightarrow> int \<Rightarrow> int \<Rightarrow> int \<Rightarrow> int" where
  "MakeTime hour mn sec ms = hour * msPerHour + mn * msPerMinute + sec * msPerSecond + ms"

text \<open>The day within a year on which month \<open>m\<close> (0 to 11) starts; \<open>l\<close> is 1 in a leap year.\<close>

definition DayFromMonth :: "int \<Rightarrow> int \<Rightarrow> int" where
  "DayFromMonth m l =
     (if m = 0 then 0
      else if m = 1 then 31
      else if m = 2 then 59 + l
      else if m = 3 then 90 + l
      else if m = 4 then 120 + l
      else if m = 5 then 151 + l
      else if m = 6 then 181 + l
      else if m = 7 then 212 + l
      else if m = 8 then 243 + l
      else if m = 9 then 273 + l
      else if m = 10 then 304 + l
      else 334 + l)"

text \<open>
  \<open>MakeDay\<close> carries months outside 0..11 into the year and lets the day of the month
  run over: it is the day number of the first of the month plus \<open>dt - 1\<close>.
\<close>

definition MakeDay :: "int \<Rightarrow> int \<Rightarrow> int \<Rightarrow> int" where
  "MakeDay year month dt =
     (let ym = year + month div 12; mn = month mod 12 in
      DayFromYear ym + DayFromMonth mn (if DaysInYear ym = 365 then 0 else 1) + dt - 1)"

definition MakeDate :: "int \<Rightarrow> int \<Rightarrow> int" where
  "MakeDate day time = day * msPerDay + time"

text \<open>
  The time zone of the host is a parameter of the page. \<open>LocalTZA z t isUTC\<close> is the
  offset of local time from UTC, in milliseconds: at the instant \<open>t\<close> when \<open>isUTC\<close> is
  true, and at the local time \<open>t\<close> otherwise. A local time that a transition skips or
  repeats is read with the offset in force before the transition.
\<close>

record Zone =
  LocalTZA :: "int \<Rightarrow> bool \<Rightarrow> int"

definition LocalTime :: "Zone \<Rightarrow> int \<Rightarrow> int" where
  "LocalTime z t = t + LocalTZA z t True"

definition UTC :: "Zone \<Rightarrow> int \<Rightarrow> int" where
  "UTC z t = t - LocalTZA z t False"


subsection \<open>Methods of \<open>Date\<close>\<close>

text \<open>
  Each method reads the time value \<open>tv\<close> of the date and returns the new time value. A
  setter called with fewer arguments than it accepts takes the missing fields from the
  date itself, which is why \<open>setHours\<close>, \<open>setMonth\<close> and \<open>setFullYear\<close> come in two forms.
\<close>

definition getHours :: "Zone \<Rightarrow> int \<Rightarrow> int" where
  "getHours z tv = HourFromTime (LocalTime z tv)"

definition getDate :: "Zone \<Rightarrow> int \<Rightarrow> int" where
  "getDate z tv = DateFromTime (LocalTime z tv)"

definition getMonth :: "Zone \<Rightarrow> int \<Rightarrow> int" where
  "getMonth z tv = MonthFromTime (LocalTime z tv)"

definition getFullYear :: "Zone \<Rightarrow> int \<Rightarrow> int" where
  "getFullYear z tv = YearFromTime (LocalTime z tv)"

definition setHours4 :: "Zone \<Rightarrow> int \<Rightarrow> int \<Rightarrow> int \<Rightarrow> int \<Rightarrow> int \<Rightarrow> int" where
  "setHours4 z tv hour mn sec ms =
     UTC z (MakeDate (Day (LocalTime z tv)) (MakeTime hour mn sec ms))"

definition setHours :: "Zone \<Rightarrow> int \<Rightarrow> int \<Rightarrow> int" where
  "setHours z tv hour =
     (let t = LocalTime z tv in
      UTC z (MakeDate (Day t) (MakeTime hour (MinFromTime t) (SecFromTime t) (msFromTime t))))"

definition setDate :: "Zone \<Rightarrow> int \<Rightarrow> int \<Rightarrow> int" where
  "setDate z tv dt =
     (let t = LocalTime z tv in
      UTC z (MakeDate (MakeDay (YearFromTime t) (MonthFromTime t) dt) (TimeWithinDay t)))"

definition setMonth :: "Zone \<Rightarrow> int \<Rightarrow> int \<Rightarrow> int" where
  "setMonth z tv month =
     (let t = LocalTime z tv in
      UTC z (MakeDate (MakeDay (YearFromTime t) month (DateFromTime t)) (TimeWithinDay t)))"

definition setMonth2 :: "Zone \<Rightarrow> int \<Rightarrow> int \<Rightarrow> int \<Rightarrow> int" where
  "setMonth2 z tv month dt =
     (let t = LocalTime z tv in
      UTC z (MakeDate (MakeDay (YearFromTime t) month dt) (TimeWithinDay t)))"

definition setFullYear :: "Zone \<Rightarrow> int \<Rightarrow> int \<Rightarrow> int" where
  "setFullYear z tv year =
     (let t = LocalTime z tv in
      UTC z (MakeDate (MakeDay year (MonthFromTime t) (DateFromTime t)) (TimeWithinDay t)))"

definition setFullYear3 :: "Zone \<Rightarrow> int \<Rightarrow> int \<Rightarrow> int \<Rightarrow> int \<Rightarrow> int" where
  "setFullYear3 z tv year month dt =
     (let t = LocalTime z tv in
      UTC z (MakeDate (MakeDay year month dt) (TimeWithinDay t)))"

subsection \<open>The helpers imported from date-fns\<close>

text \<open>
  \<open>startOfDay\<close>, \<open>startOfMonth\<close>, \<open>startOfYear\<close>, \<open>subDays\<close>, \<open>subMonths\<close> and
  \<open>subYears\<close>, written as the library implements them on top of the \<open>Date\<close> setters.
  \<open>startOfYear\<close> builds its result on a fresh \<open>new Date(0)\<close>; \<open>addMonths\<close> goes
  through the last day of the target month so that a day of the month the target month
  does not have is clamped.
\<close>

definition startOfDay :: "Zone \<Rightarrow> int \<Rightarrow> int" where
  "startOfDay z date = setHours4 z date 0 0 0 0"

definition startOfMonth :: "Zone \<Rightarrow> int \<Rightarrow> int" where
  "startOfMonth z date = setHours4 z (setDate z date 1) 0 0 0 0"

definition startOfYear :: "Zone \<Rightarrow> int \<Rightarrow> int" where
  "startOfYear z date = setHours4 z (setFullYear3 z 0 (getFullYear z date) 0 1) 0 0 0 0"

definition addDays :: "Zone \<Rightarrow> int \<Rightarrow> int \<Rightarrow> int" where
  "addDays z date amount =
     (if amount = 0 then date else setDate z date (getDate z date + amount))"

definition addMonths :: "Zone \<Rightarrow> int \<Rightarrow> int \<Rightarrow> int" where
  "addMonths z date amount =
     (if amount = 0 then date
      else
        let dayOfMonth = getDate z date;
            endOfDesiredMonth = setMonth2 z date (getMonth z date + amount + 1) 0;
            daysInMonth = getDate z endOfDesiredMonth
        in if dayOfMonth \<ge> daysInMonth then endOfDesiredMonth
           else setFullYear3 z date (getFullYear z endOfDesiredMonth)
                  (getMonth z endOfDesiredMonth) dayOfMonth)"

definition addYears :: "Zone \<Rightarrow> int \<Rightarrow> int \<Rightarrow> int" where
  "addYears z date amount = addMonths z date (amount * 12)"

definition subDays :: "Zone \<Rightarrow> int \<Rightarrow> int \<Rightarrow> int" where
  "subDays z date amount = addDays z date (- amount)"

definition subMonths :: "Zone \<Rightarrow> int \<Rightarrow> int \<Rightarrow> int" where
  "subMonths z date amount = addMonths z date (- amount)"

definition subYears :: "Zone \<Rightarrow> int \<Rightarrow> int \<Rightarrow> int" where
  "subYears z date amount = addYears z date (- amount)"

subsection \<open>Labels: \<open>format\<close> on the four patterns the page uses\<close>

definition digit_char :: "nat \<Rightarrow> char" where
  "digit_char n = ''0123456789'' ! n"

function toString_nat :: "nat \<Rightarrow> string" where
  "toString_nat n =
     (if n < 10 then [digit_char n] else toString_nat (n div 10) @ [digit_char (n mod 10)])"
  by pat_completeness auto
termination
  by (relation "measure (\<lambda>n. n)") auto

declare toString_nat.simps [simp del]

definition padStart :: "string \<Rightarrow> nat \<Rightarrow> char \<Rightarrow> string" where
  "padStart s targetLength c = replicate (targetLength - length s) c @ s"

definition addLeadingZeros :: "int \<Rightarrow> nat \<Rightarrow> string" where
  "addLeadingZeros number targetLength =
     (if number < 0 then ''-'' else []) @
     padStart (toString_nat (nat \<bar>number\<bar>)) targetLength (CHR ''0'')"

definition monthAbbreviated :: "int \<Rightarrow> string" where
  "monthAbbreviated m =
     (if m = 0 then ''Jan'' else if m = 1 then ''Feb'' else if m = 2 then ''Mar''
      else if m = 3 then ''Apr'' else if m = 4 then ''May'' else if m = 5 then ''Jun''
      else if m = 6 then ''Jul'' else if m = 7 then ''Aug'' else if m = 8 then ''Sep''
      else if m = 9 then ''Oct'' else if m = 10 then ''Nov'' else ''Dec'')"

text \<open>
  The token \<open>yyyy\<close> prints the year of the era: year 0 and the years before it are
  printed as \<open>1 - year\<close>.
\<close>

definition formatYear4 :: "Zone \<Rightarrow> int \<Rightarrow> string" where
  "formatYear4 z date =
     (let signedYear = getFullYear z date;
          year = (if signedYear > 0 then signedYear else 1 - signedYear)
      in addLeadingZeros year 4)"

definition format :: "Zone \<Rightarrow> int \<Rightarrow> string \<Rightarrow> string" where
  "format z date formatString =
     (if formatString = ''HH:00'' then addLeadingZeros (getHours z date) 2 @ '':00''
      else if formatString = ''MMM dd'' then
        monthAbbreviated (getMonth z date) @ '' '' @ addLeadingZeros (getDate z date) 2
      else if formatString = ''MMM yyyy'' then
        monthAbbreviated (getMonth z date) @ '' '' @ formatYear4 z date
      else if formatString = ''yyyy'' then formatYear4 z date
      else formatString)"

section \<open>The profit and loss page\<close>

subsection \<open>Records fetched from the API\<close>

text \<open>
  Decimal columns arrive as strings and are read with \<open>parseFloat\<close>; the model holds the
  decimal number the string writes, as a rational, and \<open>None\<close> for a column that is null
  or empty. Quantities are integers. Instants are time values in milliseconds. The
  fields of \<open>ProfitData\<close> and \<open>Statistics\<close> are JavaScript numbers.
\<close>

datatype TimeRange = Hourly | Daily | Monthly | Yearly

datatype TransactionType = Sale | Purchase | ReturnTx | Refund | Adjustment

record Product =
  product_id :: string
  costPrice :: "rat option"
  stockQuantity :: int

record OrderItem =
  oi_productId :: string
  oi_quantity :: int

record Order =
  order_createdAt :: int
  totalAmount :: rat
  order_items :: "OrderItem list"

record ReturnItem =
  ri_productId :: string
  ri_quantity :: int

record Return =
  return_createdAt :: int
  refundAmount :: "rat option"
  return_items :: "ReturnItem list"

record Account =
  transactionDate :: int
  transactionType :: TransactionType
  profit :: rat

record ProfitData =
  period :: string
  purchaseProfit :: rat
  purchaseLoss :: rat
  salesProfit :: rat
  salesLoss :: rat
  totalProfit :: rat
  totalLoss :: rat
  revenue :: rat
  cost :: rat
  orders :: nat
  returns :: nat

record Statistics =
  totalPurchaseProfit :: rat
  totalPurchaseLoss :: rat
  totalSalesProfit :: rat
  totalSalesLoss :: rat
  stat_totalProfit :: rat
  stat_totalLoss :: rat
  netProfit :: rat
  totalRevenue :: rat
  totalCost :: rat
  profitMargin :: "rat option"
  inventoryValue :: rat
  totalOrders :: nat
  totalReturns :: nat
  returnRate :: "rat option"

subsection \<open>Numbers\<close>

text \<open>
  A JavaScript number is an IEEE 754 binary64 value. The model holds a finite number as
  the rational it stands for, and every arithmetic operation returns the exact result
  rounded to the nearest binary64 value, a tie going to the even significand:
  \<open>round64\<close>. There \<open>ilog2 x\<close> is the exponent \<open>k\<close> with \<open>2 ^ k \<le> x < 2 ^ (k + 1)\<close>
  (lemma \<open>ilog2_bounds\<close> below), the significand has 53 bits, and a value below
  \<open>2 ^ - 1022\<close> is rounded on the subnormal grid of step \<open>2 ^ - 1074\<close>. The two zeros
  are one number here: they compare equal and add alike, only printing tells them
  apart. Results beyond the largest finite binary64 value, where JavaScript gives
  \<open>Infinity\<close> or \<open>NaN\<close>, are not modelled.
\<close>

definition pow2 :: "int \<Rightarrow> rat" where
  "pow2 e = (if 0 \<le> e then 2 ^ nat e else 1 / 2 ^ nat (- e))"

definition ilog2 :: "rat \<Rightarrow> int" where
  "ilog2 x =
     (let (a, b) = quotient_of x; k = bitlen a - bitlen b
      in if pow2 k \<le> x then k else k - 1)"

definition roundTiesToEven :: "rat \<Rightarrow> int" where
  "roundTiesToEven m =
     (let f = \<lfloor>m\<rfloor>; r = m - of_int f
      in if r < 1 / 2 then f else if 1 / 2 < r then f + 1 else if even f then f else f + 1)"

definition round64 :: "rat \<Rightarrow> rat" where
  "round64 x =
     (if x = 0 then 0
      else let e = max (ilog2 \<bar>x\<bar> - 52) (- 1074)
           in of_int (roundTiesToEven (x / pow2 e)) * pow2 e)"

text \<open>
  The operators \<open>+\<close>, \<open>-\<close> and \<open>*\<close> on numbers. A quotient is \<open>None\<close> when the divisor is
  zero, where JavaScript would produce \<open>NaN\<close> or an infinity.
\<close>

definition add64 :: "rat \<Rightarrow> rat \<Rightarrow> rat" where
  "add64 x y = round64 (x + y)"

definition sub64 :: "rat \<Rightarrow> rat \<Rightarrow> rat" where
  "sub64 x y = round64 (x - y)"

definition mul64 :: "rat \<Rightarrow> rat \<Rightarrow> rat" where
  "mul64 x y = round64 (x * y)"

definition jsDivide :: "rat \<Rightarrow> rat \<Rightarrow> rat option" where
  "jsDivide a b = (if b = 0 then None else Some (round64 (a / b)))"

text \<open>
  \<open>parseFloat\<close> reads a decimal numeral: its argument is the decimal number the string
  writes, its result the nearest binary64 value. \<open>toFixed2 x\<close> is the decimal that
  \<open>x.toFixed(2)\<close> writes: with \<open>n\<close> the integer for which \<open>n / 100\<close> is nearest to \<open>\<bar>x\<bar>\<close>,
  the larger one on a tie, it is \<open>n / 100\<close> with the sign of \<open>x\<close>; from \<open>10 ^ 21\<close> on
  \<open>toFixed\<close> writes the number itself. The page always reads the string back:
  \<open>parseFloat(x.toFixed(2))\<close> is \<open>parseFloat (toFixed2 x)\<close>.
\<close>

definition parseFloat :: "rat \<Rightarrow> rat" where
  "parseFloat s = round64 s"

definition toFixed2 :: "rat \<Rightarrow> rat" where
  "toFixed2 x =
     (if 10 ^ 21 \<le> \<bar>x\<bar> then x
      else if x < 0 then - (of_int \<lfloor>(- x) * 100 + 1 / 2\<rfloor> / 100)
      else of_int \<lfloor>x * 100 + 1 / 2\<rfloor> / 100)"

subsection \<open>\<open>productMap\<close> and the time windows\<close>

definition productMap :: "Product list \<Rightarrow> (string \<rightharpoonup> Product)" where
  "productMap products = foldl (\<lambda>m p. m(product_id p \<mapsto> p)) Map.empty products"

text \<open>\<open>product?.costPrice ? parseFloat(product.costPrice.toString()) : 0\<close>\<close>

definition costPriceOf :: "(string \<rightharpoonup> Product) \<Rightarrow> string \<Rightarrow> rat" where
  "costPriceOf pm productId =
     (case pm productId of
        None \<Rightarrow> 0
      | Some product \<Rightarrow> (case costPrice product of None \<Rightarrow> 0 | Some c \<Rightarrow> parseFloat c))"

definition periods :: "Zone \<Rightarrow> TimeRange \<Rightarrow> int \<Rightarrow> int list" where
  "periods z timeRange now =
     (case timeRange of
        Hourly \<Rightarrow> map (\<lambda>i. setHours4 z now (getHours z now - int i) 0 0 0) (rev [0..<24])
      | Daily \<Rightarrow> map (\<lambda>i. subDays z (startOfDay z now) (int i)) (rev [0..<30])
      | Monthly \<Rightarrow> map (\<lambda>i. subMonths z (startOfMonth z now) (int i)) (rev [0..<12])
      | Yearly \<Rightarrow> map (\<lambda>i. subYears z (startOfYear z now) (int i)) (rev [0..<5]))"

definition formatString :: "TimeRange \<Rightarrow> string" where
  "formatString timeRange =
     (case timeRange of
        Hourly \<Rightarrow> ''HH:00''
      | Daily \<Rightarrow> ''MMM dd''
      | Monthly \<Rightarrow> ''MMM yyyy''
      | Yearly \<Rightarrow> ''yyyy'')"

definition nextPeriod :: "Zone \<Rightarrow> TimeRange \<Rightarrow> int \<Rightarrow> int" where
  "nextPeriod z timeRange p =
     (case timeRange of
        Hourly \<Rightarrow> setHours z p (getHours z p + 1)
      | Daily \<Rightarrow> setDate z p (getDate z p + 1)
      | Monthly \<Rightarrow> setMonth z p (getMonth z p + 1)
      | Yearly \<Rightarrow> setFullYear z p (getFullYear z p + 1))"

subsection \<open>The figures of one window\<close>

definition periodOrders :: "Order list \<Rightarrow> int \<Rightarrow> int \<Rightarrow> Order list" where
  "periodOrders orderList p nextP =
     filter (\<lambda>order. order_createdAt order \<ge> p \<and> order_createdAt order < nextP) orderList"

definition periodReturns :: "Return list \<Rightarrow> int \<Rightarrow> int \<Rightarrow> Return list" where
  "periodReturns returnList p nextP =
     filter (\<lambda>r. return_createdAt r \<ge> p \<and> return_createdAt r < nextP) returnList"

definition periodPurchases :: "Account list \<Rightarrow> int \<Rightarrow> int \<Rightarrow> Account list" where
  "periodPurchases accounts p nextP =
     filter (\<lambda>a. transactionType a = Purchase \<and> transactionDate a \<ge> p \<and> transactionDate a < nextP)
       accounts"

text \<open>The pair (\<open>purchaseProfit\<close>, \<open>purchaseLoss\<close>) after the \<open>forEach\<close> over the purchases.\<close>

definition purchaseProfitLoss :: "Account list \<Rightarrow> rat \<times> rat" where
  "purchaseProfitLoss purchases =
     foldl (\<lambda>(pProfit, pLoss) acc.
              let pf = parseFloat (profit acc)
              in if pf > 0 then (add64 pProfit pf, pLoss)
                 else if pf < 0 then (pProfit, add64 pLoss \<bar>pf\<bar>)
                 else (pProfit, pLoss))
       (0, 0) purchases"

definition grossRevenue :: "Order list \<Rightarrow> rat" where
  "grossRevenue pOrders = foldl (\<lambda>sum order. add64 sum (parseFloat (totalAmount order))) 0 pOrders"

definition cogsOf :: "(string \<rightharpoonup> Product) \<Rightarrow> Order list \<Rightarrow> rat" where
  "cogsOf pm pOrders =
     foldl (\<lambda>cogs order.
              foldl (\<lambda>cogs item.
                       add64 cogs (mul64 (costPriceOf pm (oi_productId item)) (of_int (oi_quantity item))))
                cogs (order_items order))
       0 pOrders"

definition refundTotal :: "Return list \<Rightarrow> rat" where
  "refundTotal pReturns =
     foldl (\<lambda>sum ret. add64 sum (case refundAmount ret of None \<Rightarrow> 0 | Some a \<Rightarrow> parseFloat a))
       0 pReturns"

definition returnedCostOf :: "(string \<rightharpoonup> Product) \<Rightarrow> Return list \<Rightarrow> rat" where
  "returnedCostOf pm pReturns =
     foldl (\<lambda>returnedCost ret.
              foldl (\<lambda>returnedCost item.
                       add64 returnedCost
                         (mul64 (costPriceOf pm (ri_productId item)) (of_int (ri_quantity item))))
                returnedCost (return_items ret))
       0 pReturns"

text \<open>
  The pair (\<open>salesProfit\<close>, \<open>salesLoss\<close>): first set from the gross difference, then
  assigned again from the net difference in the two branches the source has.
\<close>

definition salesProfitLoss :: "rat \<Rightarrow> rat \<Rightarrow> rat \<Rightarrow> rat \<Rightarrow> rat \<times> rat" where
  "salesProfitLoss salesRevenue salesCost refund returnedCost =
     (let salesDifference = sub64 salesRevenue salesCost;
          gross = (if salesDifference > 0 then (salesDifference, 0)
                   else if salesDifference < 0 then (0, \<bar>salesDifference\<bar>)
                   else (0, 0));
          netRevenue = sub64 salesRevenue refund;
          netCost = sub64 salesCost returnedCost;
          netSalesDifference = sub64 netRevenue netCost
      in if netSalesDifference > 0 then (netSalesDifference, 0)
         else if netSalesDifference < 0 then (0, \<bar>netSalesDifference\<bar>)
         else gross)"

definition periodData ::
  "Zone \<Rightarrow> TimeRange \<Rightarrow> (string \<rightharpoonup> Product) \<Rightarrow> Order list \<Rightarrow> Return list \<Rightarrow> Account list \<Rightarrow> int
     \<Rightarrow> ProfitData" where
  "periodData z timeRange pm orderList returnList accounts p =
     (let nextP = nextPeriod z timeRange p;
          pOrders = periodOrders orderList p nextP;
          pReturns = periodReturns returnList p nextP;
          pPurchases = periodPurchases accounts p nextP;
          pProfit = fst (purchaseProfitLoss pPurchases);
          pLoss = snd (purchaseProfitLoss pPurchases);
          salesRevenue = grossRevenue pOrders;
          salesCost = cogsOf pm pOrders;
          refund = refundTotal pReturns;
          returnedCost = returnedCostOf pm pReturns;
          sProfit = fst (salesProfitLoss salesRevenue salesCost refund returnedCost);
          sLoss = snd (salesProfitLoss salesRevenue salesCost refund returnedCost);
          netRevenue = sub64 salesRevenue refund;
          netCost = sub64 salesCost returnedCost
      in \<lparr> period = format z p (formatString timeRange),
           purchaseProfit = parseFloat (toFixed2 pProfit),
           purchaseLoss = parseFloat (toFixed2 pLoss),
           salesProfit = parseFloat (toFixed2 sProfit),
           salesLoss = parseFloat (toFixed2 sLoss),
           totalProfit = parseFloat (toFixed2 (add64 pProfit sProfit)),
           totalLoss = parseFloat (toFixed2 (add64 pLoss sLoss)),
           revenue = parseFloat (toFixed2 netRevenue),
           cost = parseFloat (toFixed2 netCost),
           orders = length pOrders,
           returns = length pReturns \<rparr>)"

definition profitData ::
  "Zone \<Rightarrow> TimeRange \<Rightarrow> int \<Rightarrow> Product list \<Rightarrow> Order list \<Rightarrow> Return list \<Rightarrow> Account list
     \<Rightarrow> ProfitData list" where
  "profitData z timeRange now products orderList returnList accounts =
     map (periodData z timeRange (productMap products) orderList returnList accounts)
       (periods z timeRange now)"

subsection \<open>The overall statistics\<close>

text \<open>
  The sums of the money fields are sums of numbers, rounded at every step. The counts
  of orders and returns are lengths of arrays, integers far below \<open>2 ^ 53\<close> on which
  the addition of numbers is exact: they are natural numbers here.
\<close>

definition statistics :: "ProfitData list \<Rightarrow> Product list \<Rightarrow> Statistics" where
  "statistics pd products =
     (let tPurchaseProfit = foldl (\<lambda>sum d. add64 sum (purchaseProfit d)) 0 pd;
          tPurchaseLoss = foldl (\<lambda>sum d. add64 sum (purchaseLoss d)) 0 pd;
          tSalesProfit = foldl (\<lambda>sum d. add64 sum (salesProfit d)) 0 pd;
          tSalesLoss = foldl (\<lambda>sum d. add64 sum (salesLoss d)) 0 pd;
          tProfit = add64 tPurchaseProfit tSalesProfit;
          tLoss = add64 tPurchaseLoss tSalesLoss;
          nProfit = sub64 tProfit tLoss;
          tRevenue = foldl (\<lambda>sum d. add64 sum (revenue d)) 0 pd;
          tCost = foldl (\<lambda>sum d. add64 sum (cost d)) 0 pd;
          margin = (if tRevenue > 0
                    then map_option (\<lambda>q. mul64 q 100) (jsDivide nProfit tRevenue)
                    else Some 0);
          inventory = foldl (\<lambda>sum p. add64 sum
                               (mul64 (case costPrice p of None \<Rightarrow> 0 | Some c \<Rightarrow> parseFloat c)
                                  (of_int (stockQuantity p)))) 0 products;
          tOrders = foldl (\<lambda>sum d. sum + orders d) 0 pd;
          tReturns = foldl (\<lambda>sum d. sum + returns d) 0 pd;
          rate = (if tOrders > 0
                  then map_option (\<lambda>q. mul64 q 100) (jsDivide (of_nat tReturns) (of_nat tOrders))
                  else Some 0)
      in \<lparr> totalPurchaseProfit = tPurchaseProfit,
           totalPurchaseLoss = tPurchaseLoss,
           totalSalesProfit = tSalesProfit,
           totalSalesLoss = tSalesLoss,
           stat_totalProfit = tProfit,
           stat_totalLoss = tLoss,
           netProfit = nProfit,
           totalRevenue = tRevenue,
           totalCost = tCost,
           profitMargin = margin,
           inventoryValue = inventory,
           totalOrders = tOrders,
           totalReturns = tReturns,
           returnRate = rate \<rparr>)"

section \<open>Vocabulary of the statements\<close>

text \<open>
  Two kinds of time zone. \<open>fixedOffset tz\<close> keeps the offset \<open>tz\<close> at all times.
  \<open>newYork2024\<close> has the offsets of America/New_York around the year 2024: five hours
  behind UTC, four hours behind between 10 March 2024, 07:00 UTC, and 3 November 2024,
  06:00 UTC. A local time is read with the offset before the transition up to the
  later of the two local readings of the transition instant, which covers the local
  hour that the clocks skip in March and the one they repeat in November.
\<close>

definition fixedOffset :: "int \<Rightarrow> Zone" where
  "fixedOffset tz = \<lparr>LocalTZA = (\<lambda>t isUTC. tz)\<rparr>"





definition windowCount :: "TimeRange \<Rightarrow> nat" where
  "windowCount timeRange = (case timeRange of Hourly \<Rightarrow> 24 | Daily \<Rightarrow> 30 | Monthly \<Rightarrow> 12 | Yearly \<Rightarrow> 5)"


text \<open>
  An item whose cost cannot be resolved: no product under its identifier, or a product
  without a cost price.
\<close>

definition unresolvedCost :: "(string \<rightharpoonup> Product) \<Rightarrow> string \<Rightarrow> bool" where
  "unresolvedCost pm productId =
     (case pm productId of None \<Rightarrow> True | Some product \<Rightarrow> costPrice product = None)"

text \<open>
  The two profit and loss pairs of the window that starts at \<open>p\<close>, before the fields are
  rounded to 2 decimals.
\<close>

definition unroundedPurchase :: "Zone \<Rightarrow> TimeRange \<Rightarrow> Account list \<Rightarrow> int \<Rightarrow> rat \<times> rat" where
  "unroundedPurchase z timeRange accts p =
     purchaseProfitLoss (periodPurchases accts p (nextPeriod z timeRange p))"

definition unroundedSales ::
  "Zone \<Rightarrow> TimeRange \<Rightarrow> (string \<rightharpoonup> Product) \<Rightarrow> Order list \<Rightarrow> Return list \<Rightarrow> int \<Rightarrow> rat \<times> rat" where
  "unroundedSales z timeRange pm os rs p =
     salesProfitLoss (grossRevenue (periodOrders os p (nextPeriod z timeRange p)))
       (cogsOf pm (periodOrders os p (nextPeriod z timeRange p)))
       (refundTotal (periodReturns rs p (nextPeriod z timeRange p)))
       (returnedCostOf pm (periodReturns rs p (nextPeriod z timeRange p)))"

text \<open>
  The span of a run: from the earliest start of its windows to the latest end.
\<close>

definition spanStart :: "Zone \<Rightarrow> TimeRange \<Rightarrow> int \<Rightarrow> int" where
  "spanStart z timeRange now = Min (set (periods z timeRange now))"

definition spanEnd :: "Zone \<Rightarrow> TimeRange \<Rightarrow> int \<Rightarrow> int" where
  "spanEnd z timeRange now = Max (set (map (nextPeriod z timeRange) (periods z timeRange now)))"

text \<open>
  Inputs of the worked examples. The reference instant is 2 November 2024, 12:00 UTC; the
  order and the return of scenario B fall on that day, and so do the purchases below.
  \<open>oldOrder\<close> was created at the epoch, long before any window.
\<close>

definition scenarioNow :: int where "scenarioNow = 1730548800000"

definition scenarioProducts :: "Product list" where
  "scenarioProducts = [\<lparr>product_id = ''X'', costPrice = Some 10, stockQuantity = 5\<rparr>]"

definition scenarioOrder :: Order where
  "scenarioOrder = \<lparr>order_createdAt = 1730541600000, totalAmount = 100,
     order_items = [\<lparr>oi_productId = ''X'', oi_quantity = 2\<rparr>]\<rparr>"

definition scenarioReturn :: Return where
  "scenarioReturn = \<lparr>return_createdAt = 1730545200000, refundAmount = Some 100,
     return_items = [\<lparr>ri_productId = ''X'', ri_quantity = 2\<rparr>]\<rparr>"

definition mixedPurchases :: "Account list" where
  "mixedPurchases =
     [\<lparr>transactionDate = 1730541600000, transactionType = Purchase, profit = 5\<rparr>,
      \<lparr>transactionDate = 1730545200000, transactionType = Purchase, profit = - 3\<rparr>]"

definition subCentPurchases :: "Account list" where
  "subCentPurchases =
     [\<lparr>transactionDate = 1730541600000, transactionType = Purchase, profit = 1 / 250\<rparr>]"

definition subCentOrder :: Order where
  "subCentOrder = \<lparr>order_createdAt = 1730541600000, totalAmount = 1 / 250, order_items = []\<rparr>"


definition oldOrder :: Order where
  "oldOrder = \<lparr>order_createdAt = 0, totalAmount = 40, order_items = []\<rparr>"





text \<open>
  Two entries of \<open>profitData\<close> for the statistics: a window with revenue 100.00 and a
  sales profit of 80.00 on four orders and one return, and a window with a purchase
  profit and a sales loss but neither revenue nor orders.
\<close>

definition profitableWindow :: ProfitData where
  "profitableWindow =
     \<lparr>period = ''2024'', purchaseProfit = 0, purchaseLoss = 0, salesProfit = 80, salesLoss = 0,
      totalProfit = 80, totalLoss = 0, revenue = 100, cost = 20, orders = 4, returns = 1\<rparr>"

definition idleWindow :: ProfitData where
  "idleWindow =
     \<lparr>period = ''2023'', purchaseProfit = 5, purchaseLoss = 0, salesProfit = 0, salesLoss = 2,
      totalProfit = 5, totalLoss = 2, revenue = 0, cost = 0, orders = 0, returns = 1\<rparr>"

text \<open>
  The number a string of decimal digits stands for; it reads back what
  \<open>addLeadingZeros\<close> prints.
\<close>

definition digit_value :: "char \<Rightarrow> nat" where
  "digit_value c = of_char c - 48"


section \<open>Facts about the calendar\<close>

lemma DayFromYear_lower: "y \<le> y' \<Longrightarrow> DayFromYear y + 365 * (y' - y) \<le> DayFromYear y'"
proof (induction y' rule: int_ge_induct)
  case base
  then show ?case by simp
next
  case (step i)
  have "365 \<le> DaysInYear i" unfolding DaysInYear_def by simp
  then show ?case using step DayFromYear_next [of i] by (simp add: algebra_simps)
qed



lemma DayFromYear_strict_mono: "y < y' \<Longrightarrow> DayFromYear y < DayFromYear y'"
  using DayFromYear_lower [of y y'] by simp


















lemma MakeDay_date: "MakeDay y m dt = MakeDay y m 1 + dt - 1"
  unfolding MakeDay_def Let_def by simp




lemma msPerHour_pos: "0 < msPerHour" by (simp add: msPerHour_def)
lemma msPerHour_minutes: "msPerHour = msPerMinute * 60" by (simp add: msPerMinute_def msPerHour_def)
lemma msPerMinute_seconds: "msPerMinute = msPerSecond * 60" by (simp add: msPerMinute_def msPerSecond_def)









lemma hour_floor_fields:
  assumes "t = h * msPerHour"
  shows "MinFromTime t = 0" "SecFromTime t = 0" "msFromTime t = 0" "t div msPerHour = h"
proof -
  show "MinFromTime t = 0" unfolding MinFromTime_def assms msPerHour_minutes
    by (simp add: msPerMinute_def)
  show "SecFromTime t = 0" unfolding SecFromTime_def assms msPerHour_minutes msPerMinute_seconds
    by (simp add: msPerSecond_def)
  show "msFromTime t = 0" unfolding msFromTime_def assms msPerHour_minutes msPerMinute_seconds
    by simp
  show "t div msPerHour = h" unfolding assms using msPerHour_pos by simp
qed












subsection \<open>Hourly windows\<close>




subsection \<open>Daily windows\<close>





subsection \<open>Monthly and yearly windows\<close>












lemma length_periods: "length (periods z timeRange now) = windowCount timeRange"
  unfolding periods_def windowCount_def by (cases timeRange) simp_all








section \<open>Facts about rounding to binary64\<close>

lemma pow2_powi: "pow2 e = 2 powi e"
  unfolding pow2_def power_int_def by (simp add: field_simps)

lemma pow2_pos: "0 < pow2 e"
  unfolding pow2_powi by (simp add: zero_less_power_int)

lemma pow2_add: "pow2 (a + b) = pow2 a * pow2 b"
  unfolding pow2_powi by (simp add: power_int_add)

lemma pow2_0: "pow2 0 = 1"
  unfolding pow2_def by simp

lemma pow2_nat: "0 \<le> e \<Longrightarrow> pow2 e = 2 ^ nat e"
  unfolding pow2_def by simp

lemma pow2_le: "a \<le> b \<Longrightarrow> pow2 a \<le> pow2 b"
  unfolding pow2_powi by (intro power_int_increasing) simp_all

lemma pow2_less: "a < b \<Longrightarrow> pow2 a < pow2 b"
  unfolding pow2_powi by (intro power_int_strict_increasing) simp_all

lemma pow2_less_D: "pow2 a < pow2 b \<Longrightarrow> a < b"
  using pow2_le [of b a] by (cases "a < b") simp_all

lemma ilog2_bounds:
  assumes "0 < x"
  shows "pow2 (ilog2 x) \<le> x" "x < pow2 (ilog2 x + 1)"
proof -
  obtain a b where q: "quotient_of x = (a, b)" by (cases "quotient_of x")
  have b: "0 < b" using quotient_of_denom_pos [OF q] .
  have x: "x = of_int a / of_int b" using quotient_of_div [OF q] .
  have a: "0 < a" using assms b unfolding x by (simp add: zero_less_divide_iff)
  define la where "la = bitlen a"
  define lb where "lb = bitlen b"
  have pos: "1 \<le> bitlen c" if "0 < c" for c :: int
  proof (rule ccontr)
    assume "\<not> 1 \<le> bitlen c"
    then have "nat (bitlen c) = 0" by simp
    then show False using bitlen_bounds [OF that] that by simp
  qed
  have la: "0 \<le> la - 1" "(2::int) ^ nat (la - 1) \<le> a" "a < 2 ^ nat la" "0 \<le> la"
    unfolding la_def using bitlen_bounds [OF a] pos [OF a] by simp_all
  have lb: "0 \<le> lb - 1" "(2::int) ^ nat (lb - 1) \<le> b" "b < 2 ^ nat lb" "0 \<le> lb"
    unfolding lb_def using bitlen_bounds [OF b] pos [OF b] by simp_all
  have ra: "pow2 (la - 1) \<le> of_int a" "of_int a < pow2 la"
    using la by (simp_all add: pow2_nat of_int_le_numeral_power_cancel_iff of_int_less_numeral_power_cancel_iff
        numeral_power_le_of_int_cancel_iff)
  have rb: "pow2 (lb - 1) \<le> of_int b" "of_int b < pow2 lb"
    using lb by (simp_all add: pow2_nat of_int_le_numeral_power_cancel_iff of_int_less_numeral_power_cancel_iff
        numeral_power_le_of_int_cancel_iff)
  have bpos: "(0::rat) < of_int b" using b by simp
  have lo: "pow2 (la - lb - 1) < x"
  proof -
    have "pow2 (la - lb - 1) * of_int b < pow2 (la - lb - 1) * pow2 lb"
      using rb(2) pow2_pos [of "la - lb - 1"] by simp
    also have "\<dots> = pow2 (la - 1)" using pow2_add [of "la - lb - 1" lb] by simp
    also have "\<dots> \<le> of_int a" by (rule ra)
    finally show ?thesis unfolding x using bpos by (simp add: pos_less_divide_eq)
  qed
  have hi: "x < pow2 (la - lb + 1)"
  proof -
    have "of_int a < pow2 la" by (rule ra)
    also have "\<dots> = pow2 (la - lb + 1) * pow2 (lb - 1)" using pow2_add [of "la - lb + 1" "lb - 1"] by simp
    also have "\<dots> \<le> pow2 (la - lb + 1) * of_int b"
      using rb(1) pow2_pos [of "la - lb + 1"] by simp
    finally show ?thesis unfolding x using bpos by (simp add: pos_divide_less_eq)
  qed
  have e: "ilog2 x = (if pow2 (la - lb) \<le> x then la - lb else la - lb - 1)"
    unfolding ilog2_def q la_def lb_def by simp
  show "pow2 (ilog2 x) \<le> x" unfolding e using lo by simp
  show "x < pow2 (ilog2 x + 1)" unfolding e using hi by simp
qed

lemma ilog2_unique:
  assumes "pow2 k \<le> x" "x < pow2 (k + 1)"
  shows "ilog2 x = k"
proof -
  have x: "0 < x" using assms(1) pow2_pos [of k] by simp
  note b = ilog2_bounds [OF x]
  have "pow2 k < pow2 (ilog2 x + 1)" using assms(1) b(2) by simp
  then have 1: "k < ilog2 x + 1" by (rule pow2_less_D)
  have "pow2 (ilog2 x) < pow2 (k + 1)" using assms(2) b(1) by simp
  then have 2: "ilog2 x < k + 1" by (rule pow2_less_D)
  show ?thesis using 1 2 by simp
qed

lemma roundTiesToEven_of_int: "roundTiesToEven (of_int n) = n"
  unfolding roundTiesToEven_def by simp

lemma roundTiesToEven_ge: "of_int a \<le> m \<Longrightarrow> a \<le> roundTiesToEven m"
proof -
  assume "of_int a \<le> m"
  then have "a \<le> \<lfloor>m\<rfloor>" by (simp add: le_floor_iff)
  then show ?thesis unfolding roundTiesToEven_def Let_def by simp
qed

lemma roundTiesToEven_le: "m \<le> of_int b \<Longrightarrow> roundTiesToEven m \<le> b"
proof -
  assume m: "m \<le> of_int b"
  show ?thesis
  proof (cases "m = of_int b")
    case True
    then show ?thesis by (simp add: roundTiesToEven_of_int)
  next
    case False
    then have "m < of_int b" using m by simp
    then have "\<lfloor>m\<rfloor> < b" by (simp add: floor_less_iff)
    then show ?thesis unfolding roundTiesToEven_def Let_def by simp
  qed
qed

lemma round64_zero: "round64 0 = 0"
  unfolding round64_def by simp

lemma roundTiesToEven_minus: "roundTiesToEven (- m) = - roundTiesToEven m"
proof (cases "m = of_int \<lfloor>m\<rfloor>")
  case True
  then obtain n where "m = of_int n" by blast
  then have "- m = of_int (- n)" by simp
  then show ?thesis unfolding \<open>m = of_int n\<close> by (simp only: roundTiesToEven_of_int)
next
  case False
  define f where "f = \<lfloor>m\<rfloor>"
  have lt: "of_int f < m" "m < of_int f + 1" unfolding f_def using False by linarith+
  have fm: "\<lfloor>- m\<rfloor> = - f - 1" using lt by linarith
  show ?thesis
    unfolding roundTiesToEven_def Let_def fm f_def [symmetric] using lt by (auto simp: field_simps)
qed

lemma round64_minus: "round64 (- x) = - round64 x"
  unfolding round64_def by (simp add: roundTiesToEven_minus Let_def)

lemma round64_nonneg: "0 \<le> x \<Longrightarrow> 0 \<le> round64 x"
proof (cases "x = 0")
  case True
  then show ?thesis by (simp add: round64_zero)
next
  case False
  assume "0 \<le> x"
  define e where "e = max (ilog2 \<bar>x\<bar> - 52) (- 1074)"
  have "(of_int 0 :: rat) \<le> x / pow2 e" using \<open>0 \<le> x\<close> pow2_pos [of e] by simp
  then have "0 \<le> roundTiesToEven (x / pow2 e)" by (rule roundTiesToEven_ge)
  then have "0 \<le> of_int (roundTiesToEven (x / pow2 e)) * pow2 e" using pow2_pos [of e] by simp
  then show ?thesis unfolding round64_def Let_def e_def using False by simp
qed

lemma round64_nonpos: "x \<le> 0 \<Longrightarrow> round64 x \<le> 0"
  using round64_nonneg [of "- x"] by (simp add: round64_minus)

lemma round64_pos_D: "0 < round64 x \<Longrightarrow> 0 < x"
  using round64_nonpos [of x] by (cases "0 < x") simp_all

lemma round64_neg_D: "round64 x < 0 \<Longrightarrow> x < 0"
  using round64_nonneg [of x] by (cases "x < 0") simp_all

lemma round64_normal_pos:
  assumes "pow2 (- 1022) \<le> x"
  shows "pow2 (ilog2 x) \<le> round64 x"
proof -
  have x: "0 < x" using assms pow2_pos [of "- 1022"] by simp
  define k where "k = ilog2 x"
  note b = ilog2_bounds [OF x, folded k_def]
  have "pow2 (- 1022) < pow2 (k + 1)" using assms b(2) by simp
  then have k: "- 1022 \<le> k" using pow2_less_D [of "- 1022" "k + 1"] by simp
  then have e: "max (k - 52) (- 1074) = k - 52" by simp
  have "pow2 52 * pow2 (k - 52) \<le> x" using b(1) pow2_add [of 52 "k - 52"] by simp
  then have "pow2 52 \<le> x / pow2 (k - 52)" using pow2_pos [of "k - 52"] by (simp add: pos_le_divide_eq)
  then have "of_int (2 ^ 52) \<le> x / pow2 (k - 52)" by (simp add: pow2_nat)
  then have "2 ^ 52 \<le> roundTiesToEven (x / pow2 (k - 52))" by (rule roundTiesToEven_ge)
  then have "(of_int (2 ^ 52) :: rat) \<le> of_int (roundTiesToEven (x / pow2 (k - 52)))"
    by (simp only: of_int_le_iff)
  then have "pow2 52 * pow2 (k - 52) \<le> of_int (roundTiesToEven (x / pow2 (k - 52))) * pow2 (k - 52)"
    using pow2_pos [of "k - 52"] by (simp add: pow2_nat)
  then have "pow2 k \<le> of_int (roundTiesToEven (x / pow2 (k - 52))) * pow2 (k - 52)"
    using pow2_add [of 52 "k - 52"] by simp
  then show ?thesis unfolding round64_def Let_def using x e by (simp add: k_def)
qed

lemma round64_pos: "1 / 100 \<le> x \<Longrightarrow> 0 < round64 x"
proof -
  assume x: "1 / 100 \<le> x"
  have "pow2 (- 1022) \<le> pow2 (- 7)" by (rule pow2_le) simp
  also have "\<dots> \<le> 1 / 100" unfolding pow2_def by simp
  finally have "pow2 (- 1022) \<le> x" using x by simp
  then have "pow2 (ilog2 x) \<le> round64 x" by (rule round64_normal_pos)
  then show ?thesis using pow2_pos [of "ilog2 x"] by simp
qed

lemma round64_neg: "x \<le> - (1 / 100) \<Longrightarrow> round64 x < 0"
  using round64_pos [of "- x"] by (simp add: round64_minus)

lemma round64_idem_pos:
  assumes x: "0 < x"
  shows "round64 (round64 x) = round64 x"
proof -
  define k where "k = ilog2 x"
  define e where "e = max (k - 52) (- 1074)"
  define n where "n = roundTiesToEven (x / pow2 e)"
  define y where "y = of_int n * pow2 e"
  have y: "round64 x = y"
    unfolding round64_def Let_def y_def n_def e_def k_def using x by simp
  note b = ilog2_bounds [OF x, folded k_def]
  have pe: "0 < pow2 e" by (rule pow2_pos)
  have e_ge: "- 1074 \<le> e" "k - 52 \<le> e" unfolding e_def by simp_all
  have n0: "0 \<le> n" unfolding n_def using x pe by (intro roundTiesToEven_ge) simp
  have "x < pow2 (k + 1)" by (rule b)
  also have "\<dots> \<le> pow2 (53 + e)" using e_ge by (intro pow2_le) simp
  also have "\<dots> = pow2 53 * pow2 e" by (rule pow2_add)
  finally have "x / pow2 e \<le> pow2 53" using pe by (simp add: pos_divide_le_eq)
  then have "x / pow2 e \<le> of_int (2 ^ 53)" by (simp add: pow2_nat)
  then have n_le: "n \<le> 2 ^ 53" unfolding n_def by (rule roundTiesToEven_le)
  have same: "round64 y = y" if "0 < n" "max (ilog2 y - 52) (- 1074) = e"
  proof -
    have "y \<noteq> 0" "0 < y" unfolding y_def using that(1) pe by simp_all
    moreover have "y / pow2 e = of_int n" unfolding y_def using pe by simp
    ultimately show ?thesis
      unfolding round64_def Let_def using that(2) by (simp add: roundTiesToEven_of_int y_def)
  qed
  have rn: "(of_int a :: rat) * pow2 e \<le> y \<longleftrightarrow> a \<le> n" "y < of_int a * pow2 e \<longleftrightarrow> n < a" for a
    unfolding y_def using pe by simp_all
  show ?thesis unfolding y
  proof (cases "n = 0")
    case True
    then show "round64 y = y" unfolding y_def by (simp add: round64_zero)
  next
    case False
    then have np: "0 < n" using n0 by simp
    show "round64 y = y"
    proof (cases "n = 2 ^ 53")
      case True
      have yv: "y = pow2 (53 + e)" unfolding y_def True pow2_add by (simp add: pow2_nat)
      have "pow2 (53 + e) \<le> y" "y < pow2 (53 + e + 1)" unfolding yv by (simp_all add: pow2_less)
      then have l: "ilog2 y = 53 + e" by (rule ilog2_unique)
      have e': "max (ilog2 y - 52) (- 1074) = e + 1" unfolding l using e_ge by simp
      have "pow2 (e + 1) = pow2 e * 2" using pow2_add [of e 1] by (simp add: pow2_def)
      then have q: "y / pow2 (e + 1) = of_int (2 ^ 52)" unfolding y_def True using pe by simp
      have yn: "y \<noteq> 0" "\<bar>y\<bar> = y" unfolding yv using pow2_pos [of "53 + e"] by simp_all
      have "round64 y = of_int (roundTiesToEven (y / pow2 (e + 1))) * pow2 (e + 1)"
        unfolding round64_def Let_def yn(2) e' using yn(1) by simp
      also have "\<dots> = of_int (2 ^ 52) * pow2 (e + 1)"
        unfolding q roundTiesToEven_of_int ..
      also have "\<dots> = y" unfolding y_def True using pow2_add [of e 1] by (simp add: pow2_def)
      finally show ?thesis .
    next
      case False
      then have nlt: "n < 2 ^ 53" using n_le by simp
      show ?thesis
      proof (cases "2 ^ 52 \<le> n")
        case True
        have "pow2 (52 + e) \<le> y" using True rn(1) [of "2 ^ 52"] unfolding pow2_add by (simp add: pow2_nat)
        moreover have "y < pow2 (52 + e + 1)"
          using nlt rn(2) [of "2 ^ 53"] pow2_add [of 53 e] by (simp add: pow2_nat)
        ultimately have l: "ilog2 y = 52 + e" by (rule ilog2_unique)
        show ?thesis using np by (rule same) (use l e_ge in simp)
      next
        case False
        have sub: "e = - 1074"
        proof (rule ccontr)
          assume "e \<noteq> - 1074"
          then have ek: "e = k - 52" unfolding e_def by simp
          have "pow2 52 * pow2 e \<le> x" using b(1) pow2_add [of 52 e] unfolding ek by simp
          then have "of_int (2 ^ 52) \<le> x / pow2 e" using pe by (simp add: pos_le_divide_eq pow2_nat)
          then have "2 ^ 52 \<le> n" unfolding n_def by (rule roundTiesToEven_ge)
          then show False using False by simp
        qed
        have y0: "0 < y" unfolding y_def using np pe by simp
        have "y < pow2 (52 + e)" using False rn(2) [of "2 ^ 52"] pow2_add [of 52 e] by (simp add: pow2_nat)
        then have "pow2 (ilog2 y) < pow2 (52 + e)" using ilog2_bounds(1) [OF y0] by simp
        then have "ilog2 y < 52 + e" by (rule pow2_less_D)
        then show ?thesis using np by (intro same) (simp_all add: sub)
      qed
    qed
  qed
qed

lemma round64_idem: "round64 (round64 x) = round64 x"
proof (cases "0 < x")
  case True
  then show ?thesis by (rule round64_idem_pos)
next
  case False
  show ?thesis
  proof (cases "x = 0")
    case True
    then show ?thesis by (simp add: round64_zero)
  next
    case False
    then have "0 < - x" using \<open>\<not> 0 < x\<close> by simp
    then have "round64 (round64 (- x)) = round64 (- x)" by (rule round64_idem_pos)
    then show ?thesis by (simp add: round64_minus)
  qed
qed

lemma roundTiesToEven_mono: "m \<le> m' \<Longrightarrow> roundTiesToEven m \<le> roundTiesToEven m'"
proof -
  assume m: "m \<le> m'"
  then have f: "\<lfloor>m\<rfloor> \<le> \<lfloor>m'\<rfloor>" by (rule floor_mono)
  show ?thesis
  proof (cases "\<lfloor>m\<rfloor> = \<lfloor>m'\<rfloor>")
    case True
    then show ?thesis unfolding roundTiesToEven_def Let_def using m by auto
  next
    case False
    then have "\<lfloor>m\<rfloor> + 1 \<le> \<lfloor>m'\<rfloor>" using f by simp
    moreover have "roundTiesToEven m \<le> \<lfloor>m\<rfloor> + 1" unfolding roundTiesToEven_def Let_def by simp
    moreover have "\<lfloor>m'\<rfloor> \<le> roundTiesToEven m'" unfolding roundTiesToEven_def Let_def by simp
    ultimately show ?thesis by simp
  qed
qed

lemma roundTiesToEven_error: "\<bar>of_int (roundTiesToEven m) - m\<bar> \<le> 1 / 2"
proof -
  have "of_int \<lfloor>m\<rfloor> \<le> m" "m < of_int \<lfloor>m\<rfloor> + 1" by linarith+
  then show ?thesis unfolding roundTiesToEven_def Let_def by auto
qed

lemma ilog2_mono:
  assumes "0 < x" "x \<le> y"
  shows "ilog2 x \<le> ilog2 y"
proof -
  have y: "0 < y" using assms by simp
  have "pow2 (ilog2 x) \<le> x" using ilog2_bounds(1) [OF assms(1)] .
  also have "x \<le> y" by (rule assms)
  also have "y < pow2 (ilog2 y + 1)" using ilog2_bounds(2) [OF y] .
  finally have "ilog2 x < ilog2 y + 1" by (rule pow2_less_D)
  then show ?thesis by simp
qed

lemma round64_upper:
  assumes x: "0 < x"
  shows "round64 x \<le> pow2 (53 + max (ilog2 x - 52) (- 1074))"
proof -
  define k where "k = ilog2 x"
  define e where "e = max (k - 52) (- 1074)"
  note b = ilog2_bounds [OF x, folded k_def]
  have pe: "0 < pow2 e" by (rule pow2_pos)
  have e_ge: "- 1074 \<le> e" "k - 52 \<le> e" unfolding e_def by simp_all
  have "x < pow2 (k + 1)" by (rule b)
  also have "\<dots> \<le> pow2 (53 + e)" using e_ge by (intro pow2_le) simp
  also have "\<dots> = pow2 53 * pow2 e" by (rule pow2_add)
  finally have "x / pow2 e \<le> pow2 53" using pe by (simp add: pos_divide_le_eq)
  then have "x / pow2 e \<le> of_int (2 ^ 53)" by (simp add: pow2_nat)
  then have "roundTiesToEven (x / pow2 e) \<le> 2 ^ 53" by (rule roundTiesToEven_le)
  then have "(of_int (roundTiesToEven (x / pow2 e)) :: rat) \<le> of_int (2 ^ 53)" by (simp only: of_int_le_iff)
  then have "of_int (roundTiesToEven (x / pow2 e)) * pow2 e \<le> pow2 53 * pow2 e"
    using pe by (simp add: pow2_nat)
  then show ?thesis
    unfolding round64_def Let_def pow2_add using x by (simp add: e_def k_def)
qed

lemma round64_mono_pos:
  assumes x: "0 < x" and xy: "x \<le> y"
  shows "round64 x \<le> round64 y"
proof -
  have y: "0 < y" using x xy by simp
  define ex where "ex = max (ilog2 x - 52) (- 1074)"
  define ey where "ey = max (ilog2 y - 52) (- 1074)"
  have k: "ilog2 x \<le> ilog2 y" using x xy by (rule ilog2_mono)
  then have e: "ex \<le> ey" unfolding ex_def ey_def by simp
  have rx: "round64 x = of_int (roundTiesToEven (x / pow2 ex)) * pow2 ex"
    unfolding round64_def Let_def ex_def using x by simp
  have ry: "round64 y = of_int (roundTiesToEven (y / pow2 ey)) * pow2 ey"
    unfolding round64_def Let_def ey_def using y by simp
  show ?thesis
  proof (cases "ex = ey")
    case True
    have "x / pow2 ey \<le> y / pow2 ey" using xy pow2_pos [of ey] by (simp add: divide_right_mono)
    then have "roundTiesToEven (x / pow2 ey) \<le> roundTiesToEven (y / pow2 ey)"
      by (rule roundTiesToEven_mono)
    then have "(of_int (roundTiesToEven (x / pow2 ey)) :: rat) \<le> of_int (roundTiesToEven (y / pow2 ey))"
      by (simp only: of_int_le_iff)
    then show ?thesis unfolding rx ry True using pow2_pos [of ey] by simp
  next
    case False
    then have lt: "ex < ey" using e by simp
    then have ey: "ey = ilog2 y - 52" "- 1022 \<le> ilog2 y" unfolding ey_def ex_def by linarith+
    have "pow2 (- 1022) \<le> pow2 (ilog2 y)" using ey(2) by (rule pow2_le)
    also have "\<dots> \<le> y" using ilog2_bounds(1) [OF y] .
    finally have ny: "pow2 (ilog2 y) \<le> round64 y" by (rule round64_normal_pos)
    have "round64 x \<le> pow2 (53 + ex)" unfolding ex_def using x by (rule round64_upper)
    also have "\<dots> \<le> pow2 (ilog2 y)" using lt ey(1) by (intro pow2_le) simp
    finally show ?thesis using ny by simp
  qed
qed

lemma round64_mono: "x \<le> y \<Longrightarrow> round64 x \<le> round64 y"
proof -
  assume xy: "x \<le> y"
  show ?thesis
  proof (cases "0 < x")
    case True
    then show ?thesis using xy by (rule round64_mono_pos)
  next
    case False
    then have x: "x \<le> 0" by simp
    show ?thesis
    proof (cases "0 \<le> y")
      case True
      then show ?thesis using round64_nonpos [OF x] round64_nonneg [of y] by simp
    next
      case False
      then have "0 < - y" "- y \<le> - x" using xy by simp_all
      then have "round64 (- y) \<le> round64 (- x)" by (rule round64_mono_pos)
      then show ?thesis by (simp add: round64_minus)
    qed
  qed
qed

lemma round64_error:
  "\<bar>round64 x - x\<bar> \<le> pow2 (max (ilog2 \<bar>x\<bar> - 52) (- 1074)) / 2"
proof (cases "x = 0")
  case True
  then show ?thesis using pow2_pos [of "max (ilog2 \<bar>x\<bar> - 52) (- 1074)"] by (simp add: round64_zero)
next
  case False
  define e where "e = max (ilog2 \<bar>x\<bar> - 52) (- 1074)"
  have pe: "0 < pow2 e" by (rule pow2_pos)
  have "round64 x - x = (of_int (roundTiesToEven (x / pow2 e)) - x / pow2 e) * pow2 e"
    unfolding round64_def Let_def e_def [symmetric] using False pe by (simp add: field_simps)
  then have "\<bar>round64 x - x\<bar> = \<bar>of_int (roundTiesToEven (x / pow2 e)) - x / pow2 e\<bar> * pow2 e"
    using pe by (simp add: abs_mult)
  also have "\<dots> \<le> 1 / 2 * pow2 e"
    using roundTiesToEven_error [of "x / pow2 e"] pe by (intro mult_right_mono) simp_all
  finally show ?thesis unfolding e_def by simp
qed

section \<open>Facts about the sums and the two profit and loss pairs\<close>

lemma foldl_add_sum_list:
  "foldl (\<lambda>s x. s + f x) a xs = a + sum_list (map f xs)" for a :: "'a::monoid_add"
  by (induction xs arbitrary: a) (simp_all add: add.assoc)

lemma parseFloat_zero: "parseFloat 0 = 0"
  unfolding parseFloat_def by (rule round64_zero)

lemma add64_zero: "round64 c = c \<Longrightarrow> add64 c 0 = c"
  unfolding add64_def by simp

lemma mul64_zero: "mul64 0 q = 0"
  unfolding mul64_def by (simp add: round64_zero)

lemma round64_add64: "round64 (add64 x y) = add64 x y"
  unfolding add64_def by (rule round64_idem)

lemma round64_sub64: "round64 (sub64 x y) = sub64 x y"
  unfolding sub64_def by (rule round64_idem)

lemma round64_parseFloat: "round64 (parseFloat x) = parseFloat x"
  unfolding parseFloat_def by (rule round64_idem)

lemma add64_nonneg: "0 \<le> x \<Longrightarrow> 0 \<le> y \<Longrightarrow> 0 \<le> add64 x y"
  unfolding add64_def by (intro round64_nonneg) simp

lemma add64_ge_left: "round64 x = x \<Longrightarrow> 0 \<le> y \<Longrightarrow> x \<le> add64 x y"
  unfolding add64_def using round64_mono [of x "x + y"] by simp

lemma add64_ge_right: "round64 y = y \<Longrightarrow> 0 \<le> x \<Longrightarrow> y \<le> add64 x y"
  unfolding add64_def using round64_mono [of y "x + y"] by simp

lemma foldl_add64_double:
  "round64 a = a \<Longrightarrow> round64 (foldl (\<lambda>s x. add64 s (f x)) a xs) = foldl (\<lambda>s x. add64 s (f x)) a xs"
  by (induction xs arbitrary: a) (simp_all add: round64_add64)

lemma foldl_add64_filter:
  assumes "round64 a = a" "\<And>x. x \<in> set xs \<Longrightarrow> \<not> P x \<Longrightarrow> f x = 0"
  shows "foldl (\<lambda>s x. add64 s (f x)) a (filter P xs) = foldl (\<lambda>s x. add64 s (f x)) a xs"
  using assms
proof (induction xs arbitrary: a)
  case Nil
  then show ?case by simp
next
  case (Cons x xs)
  show ?case
  proof (cases "P x")
    case True
    then show ?thesis using Cons.prems by (simp add: Cons.IH round64_add64)
  next
    case False
    then have "f x = 0" using Cons.prems by simp
    then show ?thesis using False Cons.prems by (simp add: Cons.IH add64_zero)
  qed
qed

lemma grossRevenue_double: "round64 (grossRevenue os) = grossRevenue os"
  unfolding grossRevenue_def by (rule foldl_add64_double) (rule round64_zero)

lemma refundTotal_double: "round64 (refundTotal rs) = refundTotal rs"
  unfolding refundTotal_def by (rule foldl_add64_double) (rule round64_zero)

lemma productMap_foldl_None:
  "k \<notin> product_id ` set products \<Longrightarrow> foldl (\<lambda>m p. m(product_id p \<mapsto> p)) m products k = m k"
  by (induction products arbitrary: m) auto

lemma productMap_None: "k \<notin> product_id ` set products \<Longrightarrow> productMap products k = None"
  unfolding productMap_def by (simp add: productMap_foldl_None)

lemma costPriceOf_unresolved: "unresolvedCost pm k \<Longrightarrow> costPriceOf pm k = 0"
  unfolding unresolvedCost_def costPriceOf_def by (auto split: option.splits)

lemma cogs_items_double:
  "round64 c = c \<Longrightarrow>
   round64 (foldl (\<lambda>cogs item. add64 cogs (mul64 (costPriceOf pm (oi_productId item)) (of_int (oi_quantity item)))) c items)
     = foldl (\<lambda>cogs item. add64 cogs (mul64 (costPriceOf pm (oi_productId item)) (of_int (oi_quantity item)))) c items"
  by (rule foldl_add64_double)

lemma cogs_items_drop_unresolved:
  "round64 c = c \<Longrightarrow>
   foldl (\<lambda>cogs item. add64 cogs (mul64 (costPriceOf pm (oi_productId item)) (of_int (oi_quantity item)))) c
       (filter (\<lambda>item. \<not> unresolvedCost pm (oi_productId item)) items)
     = foldl (\<lambda>cogs item. add64 cogs (mul64 (costPriceOf pm (oi_productId item)) (of_int (oi_quantity item)))) c items"
  by (rule foldl_add64_filter) (simp_all add: costPriceOf_unresolved mul64_zero)

lemma cogs_foldl_drop_unresolved:
  "round64 c = c \<Longrightarrow>
   foldl (\<lambda>cogs order.
              foldl (\<lambda>cogs item.
                       add64 cogs (mul64 (costPriceOf pm (oi_productId item)) (of_int (oi_quantity item))))
                cogs (order_items order))
       c (map (\<lambda>order. order\<lparr>order_items :=
          filter (\<lambda>item. \<not> unresolvedCost pm (oi_productId item)) (order_items order)\<rparr>) os)
   = foldl (\<lambda>cogs order.
              foldl (\<lambda>cogs item.
                       add64 cogs (mul64 (costPriceOf pm (oi_productId item)) (of_int (oi_quantity item))))
                cogs (order_items order))
       c os"
proof (induction os arbitrary: c)
  case Nil
  then show ?case by simp
next
  case (Cons order os)
  show ?case
    using Cons.prems
    by (simp add: cogs_items_drop_unresolved Cons.IH [OF cogs_items_double])
qed

lemma cogsOf_drop_unresolved:
  "cogsOf pm (map (\<lambda>order. order\<lparr>order_items :=
          filter (\<lambda>item. \<not> unresolvedCost pm (oi_productId item)) (order_items order)\<rparr>) os) = cogsOf pm os"
  unfolding cogsOf_def by (rule cogs_foldl_drop_unresolved) (rule round64_zero)

lemma returned_items_double:
  "round64 c = c \<Longrightarrow>
   round64 (foldl (\<lambda>returnedCost item. add64 returnedCost (mul64 (costPriceOf pm (ri_productId item)) (of_int (ri_quantity item)))) c items)
     = foldl (\<lambda>returnedCost item. add64 returnedCost (mul64 (costPriceOf pm (ri_productId item)) (of_int (ri_quantity item)))) c items"
  by (rule foldl_add64_double)

lemma returned_items_drop_unresolved:
  "round64 c = c \<Longrightarrow>
   foldl (\<lambda>returnedCost item. add64 returnedCost (mul64 (costPriceOf pm (ri_productId item)) (of_int (ri_quantity item)))) c
       (filter (\<lambda>item. \<not> unresolvedCost pm (ri_productId item)) items)
     = foldl (\<lambda>returnedCost item. add64 returnedCost (mul64 (costPriceOf pm (ri_productId item)) (of_int (ri_quantity item)))) c items"
  by (rule foldl_add64_filter) (simp_all add: costPriceOf_unresolved mul64_zero)

lemma returned_foldl_drop_unresolved:
  "round64 c = c \<Longrightarrow>
   foldl (\<lambda>returnedCost ret.
              foldl (\<lambda>returnedCost item.
                       add64 returnedCost
                         (mul64 (costPriceOf pm (ri_productId item)) (of_int (ri_quantity item))))
                returnedCost (return_items ret))
       c (map (\<lambda>ret. ret\<lparr>return_items :=
          filter (\<lambda>item. \<not> unresolvedCost pm (ri_productId item)) (return_items ret)\<rparr>) rs)
   = foldl (\<lambda>returnedCost ret.
              foldl (\<lambda>returnedCost item.
                       add64 returnedCost
                         (mul64 (costPriceOf pm (ri_productId item)) (of_int (ri_quantity item))))
                returnedCost (return_items ret))
       c rs"
proof (induction rs arbitrary: c)
  case Nil
  then show ?case by simp
next
  case (Cons ret rs)
  show ?case
    using Cons.prems
    by (simp add: returned_items_drop_unresolved Cons.IH [OF returned_items_double])
qed

lemma returnedCostOf_drop_unresolved:
  "returnedCostOf pm (map (\<lambda>ret. ret\<lparr>return_items :=
          filter (\<lambda>item. \<not> unresolvedCost pm (ri_productId item)) (return_items ret)\<rparr>) rs) = returnedCostOf pm rs"
  unfolding returnedCostOf_def by (rule returned_foldl_drop_unresolved) (rule round64_zero)

lemma refundTotal_drop_missing:
  "refundTotal (filter (\<lambda>ret. refundAmount ret \<noteq> None) rs) = refundTotal rs"
  unfolding refundTotal_def by (rule foldl_add64_filter) (simp_all add: round64_zero)

lemma salesProfitLoss_exclusive:
  "fst (salesProfitLoss a b c d) = 0 \<or> snd (salesProfitLoss a b c d) = 0"
  unfolding salesProfitLoss_def Let_def by simp

lemma salesProfitLoss_nonneg:
  "0 \<le> fst (salesProfitLoss a b c d)" "0 \<le> snd (salesProfitLoss a b c d)"
  unfolding salesProfitLoss_def Let_def by simp_all

lemma salesProfitLoss_double:
  "round64 (fst (salesProfitLoss a b c d)) = fst (salesProfitLoss a b c d)"
  "round64 (snd (salesProfitLoss a b c d)) = snd (salesProfitLoss a b c d)"
  unfolding salesProfitLoss_def Let_def
  using round64_sub64 [of a b] round64_sub64 [of "sub64 a c" "sub64 b d"]
    round64_minus [of "sub64 a b"] round64_minus [of "sub64 (sub64 a c) (sub64 b d)"]
  by (simp_all add: round64_zero abs_if)

lemma purchase_foldl_invariant:
  assumes "P a b" "\<And>a b acc. P a b \<Longrightarrow> acc \<in> set ps \<Longrightarrow> 0 < parseFloat (profit acc) \<Longrightarrow> P (add64 a (parseFloat (profit acc))) b"
    "\<And>a b acc. P a b \<Longrightarrow> acc \<in> set ps \<Longrightarrow> parseFloat (profit acc) < 0 \<Longrightarrow> P a (add64 b \<bar>parseFloat (profit acc)\<bar>)"
  shows "case_prod P (foldl (\<lambda>(pProfit, pLoss) acc.
              let pf = parseFloat (profit acc)
              in if pf > 0 then (add64 pProfit pf, pLoss)
                 else if pf < 0 then (pProfit, add64 pLoss \<bar>pf\<bar>)
                 else (pProfit, pLoss)) (a, b) ps)"
  using assms
proof (induction ps arbitrary: a b)
  case Nil
  then show ?case by simp
next
  case (Cons acc ps)
  let ?F = "\<lambda>(pProfit, pLoss) acc.
              let pf = parseFloat (profit acc)
              in if pf > 0 then (add64 pProfit pf, pLoss)
                 else if pf < 0 then (pProfit, add64 pLoss \<bar>pf\<bar>)
                 else (pProfit, pLoss)"
  have step: "case_prod P (foldl ?F (a', b') ps)" if "P a' b'" for a' b'
  proof (rule Cons.IH [OF that])
    fix a b acc'
    assume h: "P a b" "acc' \<in> set ps" "0 < parseFloat (profit acc')"
    show "P (add64 a (parseFloat (profit acc'))) b" using h Cons.prems(2) [of a b acc'] by simp
  next
    fix a b acc'
    assume h: "P a b" "acc' \<in> set ps" "parseFloat (profit acc') < 0"
    show "P a (add64 b \<bar>parseFloat (profit acc')\<bar>)" using h Cons.prems(3) [of a b acc'] by simp
  qed
  consider "0 < parseFloat (profit acc)" | "parseFloat (profit acc) < 0" | "parseFloat (profit acc) = 0"
    by linarith
  then show ?case
  proof cases
    case 1
    have "P (add64 a (parseFloat (profit acc))) b" using Cons.prems(1) 1 by (intro Cons.prems(2)) simp_all
    then show ?thesis using 1 step by (simp add: Let_def)
  next
    case 2
    have "P a (add64 b \<bar>parseFloat (profit acc)\<bar>)" using Cons.prems(1) 2 by (intro Cons.prems(3)) simp_all
    then show ?thesis using 2 step by (simp add: Let_def)
  next
    case 3
    then show ?thesis using step [OF Cons.prems(1)] by (simp add: Let_def)
  qed
qed

lemma purchaseProfitLoss_nonneg:
  "0 \<le> fst (purchaseProfitLoss ps)" "0 \<le> snd (purchaseProfitLoss ps)"
proof -
  have "case_prod (\<lambda>a b. 0 \<le> a \<and> 0 \<le> b) (purchaseProfitLoss ps)"
    unfolding purchaseProfitLoss_def
    by (rule purchase_foldl_invariant) (simp_all add: add64_nonneg)
  then show "0 \<le> fst (purchaseProfitLoss ps)" "0 \<le> snd (purchaseProfitLoss ps)"
    by (simp_all add: case_prod_beta)
qed

lemma purchaseProfitLoss_double:
  "round64 (fst (purchaseProfitLoss ps)) = fst (purchaseProfitLoss ps)"
  "round64 (snd (purchaseProfitLoss ps)) = snd (purchaseProfitLoss ps)"
proof -
  have "case_prod (\<lambda>a b. round64 a = a \<and> round64 b = b) (purchaseProfitLoss ps)"
    unfolding purchaseProfitLoss_def
    by (rule purchase_foldl_invariant) (simp_all add: round64_add64 round64_zero)
  then show "round64 (fst (purchaseProfitLoss ps)) = fst (purchaseProfitLoss ps)"
    "round64 (snd (purchaseProfitLoss ps)) = snd (purchaseProfitLoss ps)"
    by (simp_all add: case_prod_beta)
qed

lemma purchaseProfit_nonzero_D:
  assumes "fst (purchaseProfitLoss ps) \<noteq> 0"
  shows "\<exists>acc\<in>set ps. profit acc > 0"
proof (rule ccontr)
  assume n: "\<not> (\<exists>acc\<in>set ps. profit acc > 0)"
  have "case_prod (\<lambda>a b. a = 0) (purchaseProfitLoss ps)"
    unfolding purchaseProfitLoss_def
  proof (rule purchase_foldl_invariant)
    fix a b :: rat and acc
    assume "acc \<in> set ps" "0 < parseFloat (profit acc)"
    then show "add64 a (parseFloat (profit acc)) = 0"
      using n round64_pos_D [of "profit acc"] unfolding parseFloat_def by blast
  qed simp_all
  then show False using assms by (simp add: case_prod_beta)
qed

lemma purchaseLoss_nonzero_D:
  assumes "snd (purchaseProfitLoss ps) \<noteq> 0"
  shows "\<exists>acc\<in>set ps. profit acc < 0"
proof (rule ccontr)
  assume n: "\<not> (\<exists>acc\<in>set ps. profit acc < 0)"
  have "case_prod (\<lambda>a b. b = 0) (purchaseProfitLoss ps)"
    unfolding purchaseProfitLoss_def
  proof (rule purchase_foldl_invariant)
    fix a b :: rat and acc
    assume "acc \<in> set ps" "parseFloat (profit acc) < 0"
    then show "add64 b \<bar>parseFloat (profit acc)\<bar> = 0"
      using n round64_neg_D [of "profit acc"] unfolding parseFloat_def by blast
  qed simp_all
  then show False using assms by (simp add: case_prod_beta)
qed

lemma purchaseProfit_zero_I:
  "\<forall>acc\<in>set ps. \<not> profit acc > 0 \<Longrightarrow> fst (purchaseProfitLoss ps) = 0"
  using purchaseProfit_nonzero_D [of ps] by blast

lemma floor_half: "\<lfloor>1 / 2 :: rat\<rfloor> = 0"
  by linarith

lemma toFixed2_zero: "toFixed2 0 = 0"
  unfolding toFixed2_def by (simp add: floor_half)


lemma toFixed2_nonneg: "0 \<le> x \<Longrightarrow> 0 \<le> toFixed2 x"
  unfolding toFixed2_def by simp



lemma toFixed2_mono_nonneg:
  assumes "0 \<le> x" "x \<le> y"
  shows "toFixed2 x \<le> toFixed2 y"
proof (cases "10 ^ 21 \<le> y")
  case False
  have "\<lfloor>x * 100 + 1 / 2\<rfloor> \<le> \<lfloor>y * 100 + 1 / 2\<rfloor>" using assms by (intro floor_mono) simp
  then have "(of_int \<lfloor>x * 100 + 1 / 2\<rfloor> :: rat) \<le> of_int \<lfloor>y * 100 + 1 / 2\<rfloor>" by (simp only: of_int_le_iff)
  then show ?thesis unfolding toFixed2_def using assms False by (simp add: divide_right_mono)
next
  case True
  show ?thesis
  proof (cases "10 ^ 21 \<le> x")
    case True
    then show ?thesis unfolding toFixed2_def using assms \<open>10 ^ 21 \<le> y\<close> by simp
  next
    case False
    define n where "n = \<lfloor>x * 100 + 1 / 2\<rfloor>"
    have "x * 100 + 1 / 2 < 10 ^ 23 + 1" using False by simp
    moreover have "of_int n \<le> x * 100 + 1 / 2" unfolding n_def by (rule of_int_floor_le)
    ultimately have "(of_int n :: rat) < of_int (10 ^ 23 + 1)" by simp
    then have "n < 10 ^ 23 + 1" by (simp only: of_int_less_iff)
    then have "n \<le> 10 ^ 23" by simp
    then have "(of_int n :: rat) \<le> of_int (10 ^ 23)" by (simp only: of_int_le_iff)
    then have "(of_int n :: rat) / 100 \<le> 10 ^ 21" by simp
    then have "(of_int \<lfloor>x * 100 + 1 / 2\<rfloor> :: rat) / 100 \<le> y" using True unfolding n_def by linarith
    then show ?thesis unfolding toFixed2_def using assms True False by simp
  qed
qed

lemma toFixed2_nonzero_D: "toFixed2 x \<noteq> 0 \<Longrightarrow> x \<noteq> 0"
  using toFixed2_zero by auto

lemma rounded_nonzero_D: "parseFloat (toFixed2 x) \<noteq> 0 \<Longrightarrow> x \<noteq> 0"
  using toFixed2_zero parseFloat_zero by auto

lemma rounded_mono_nonneg: "0 \<le> x \<Longrightarrow> x \<le> y \<Longrightarrow> parseFloat (toFixed2 x) \<le> parseFloat (toFixed2 y)"
  unfolding parseFloat_def by (intro round64_mono toFixed2_mono_nonneg)







lemma rounded_total_one_part:
  assumes "a = 0 \<or> b = 0" "round64 a = a" "round64 b = b"
  shows "parseFloat (toFixed2 (add64 a b)) = parseFloat (toFixed2 a) + parseFloat (toFixed2 b)
      \<and> parseFloat (toFixed2 (add64 a b)) = add64 (parseFloat (toFixed2 a)) (parseFloat (toFixed2 b))"
proof -
  have l: "add64 0 x = round64 x" "add64 x 0 = round64 x" for x unfolding add64_def by simp_all
  from assms(1) show ?thesis
  proof
    assume "a = 0"
    then show ?thesis using assms(3) by (simp add: l toFixed2_zero parseFloat_zero round64_parseFloat)
  next
    assume "b = 0"
    then show ?thesis using assms(2) by (simp add: l toFixed2_zero parseFloat_zero round64_parseFloat)
  qed
qed

lemma round64_error_below:
  assumes "0 \<le> y" "y < pow2 k" "- 1021 \<le> k"
  shows "\<bar>round64 y - y\<bar> \<le> pow2 (k - 54)"
proof (cases "y = 0")
  case True
  then show ?thesis using pow2_pos [of "k - 54"] by (simp add: round64_zero)
next
  case False
  then have y: "0 < y" using assms(1) by simp
  have "pow2 (ilog2 y) < pow2 k" using ilog2_bounds(1) [OF y] assms(2) by simp
  then have "ilog2 y < k" by (rule pow2_less_D)
  then have "max (ilog2 \<bar>y\<bar> - 52) (- 1074) \<le> k - 53" using assms(3) y by simp
  then have "pow2 (max (ilog2 \<bar>y\<bar> - 52) (- 1074)) \<le> pow2 (k - 53)" by (rule pow2_le)
  moreover have "pow2 (k - 53) = pow2 (k - 54) * 2" using pow2_add [of "k - 54" 1] by (simp add: pow2_def)
  ultimately show ?thesis using round64_error [of y] by simp
qed

lemma toFixed2_cents:
  assumes "0 \<le> x" "x < 10 ^ 21"
  shows "toFixed2 x = of_int \<lfloor>x * 100 + 1 / 2\<rfloor> / 100"
  unfolding toFixed2_def using assms by simp

lemma cents_near:
  "\<bar>of_int \<lfloor>x * 100 + 1 / 2\<rfloor> - x * 100\<bar> \<le> (1 / 2 :: rat)"
proof -
  have "of_int \<lfloor>x * 100 + 1 / 2\<rfloor> \<le> x * 100 + 1 / 2" "x * 100 + 1 / 2 < of_int \<lfloor>x * 100 + 1 / 2\<rfloor> + 1"
    by linarith+
  then show ?thesis by linarith
qed

lemma rounded_total_within_cent:
  assumes a0: "0 \<le> a" "a \<le> 10 ^ 9" and b0: "0 \<le> b" "b \<le> 10 ^ 9"
  shows "\<bar>parseFloat (toFixed2 (add64 a b)) - (parseFloat (toFixed2 a) + parseFloat (toFixed2 b))\<bar>
           < 1 / 100 + 1 / 10 ^ 6"
proof -
  have a: "0 \<le> a" "a \<le> 1000000000" using a0 by simp_all
  have b: "0 \<le> b" "b \<le> 1000000000" using b0 by simp_all
  define s where "s = add64 a b"
  define na where "na = \<lfloor>a * 100 + 1 / 2\<rfloor>"
  define nb where "nb = \<lfloor>b * 100 + 1 / 2\<rfloor>"
  define ns where "ns = \<lfloor>s * 100 + 1 / 2\<rfloor>"
  define u :: rat where "u = pow2 (- 22)"
  have u: "u = 1 / 4194304" unfolding u_def pow2_def by simp
  have p32: "pow2 32 = 4294967296" unfolding pow2_def by simp
  have err: "\<bar>round64 y - y\<bar> \<le> u" if "0 \<le> y" "y < pow2 32" for y
    using round64_error_below [OF that, of ] unfolding u_def by simp
  have s0: "0 \<le> s" unfolding s_def using a b by (intro add64_nonneg) simp_all
  have se: "\<bar>s - (a + b)\<bar> \<le> u"
    unfolding s_def add64_def using a b by (intro err) (simp_all add: p32)
  have "s < 1000000000000000000000" using se a b unfolding u by linarith
  then have sb: "s < 10 ^ 21" by simp
  have ta: "toFixed2 a = of_int na / 100" unfolding na_def using a by (intro toFixed2_cents) simp_all
  have tb: "toFixed2 b = of_int nb / 100" unfolding nb_def using b by (intro toFixed2_cents) simp_all
  have ts: "toFixed2 s = of_int ns / 100" unfolding ns_def using s0 sb by (intro toFixed2_cents) simp_all
  have ca: "\<bar>of_int na - a * 100\<bar> \<le> (1 / 2 :: rat)" unfolding na_def by (rule cents_near)
  have cb: "\<bar>of_int nb - b * 100\<bar> \<le> (1 / 2 :: rat)" unfolding nb_def by (rule cents_near)
  have cs: "\<bar>of_int ns - s * 100\<bar> \<le> (1 / 2 :: rat)" unfolding ns_def by (rule cents_near)
  have "\<bar>(of_int (ns - na - nb) :: rat)\<bar> < 2" using ca cb cs se unfolding u of_int_diff by linarith
  then have "\<bar>(of_int (ns - na - nb) :: rat)\<bar> < of_int 2" by simp
  then have "\<bar>ns - na - nb\<bar> < 2" by (simp only: of_int_abs [symmetric] of_int_less_iff)
  then have "\<bar>ns - na - nb\<bar> \<le> 1" by simp
  then have "(of_int \<bar>ns - na - nb\<bar> :: rat) \<le> of_int 1" by (simp only: of_int_le_iff)
  then have n: "\<bar>(of_int ns :: rat) - of_int na - of_int nb\<bar> \<le> 1" by simp
  have na0: "0 \<le> na" "0 \<le> nb" "0 \<le> ns" unfolding na_def nb_def ns_def using a b s0 by simp_all
  have pa: "(0 :: rat) \<le> of_int na / 100" "(0 :: rat) \<le> of_int nb / 100" "(0 :: rat) \<le> of_int ns / 100"
    using na0 by simp_all
  have qa: "(of_int na :: rat) / 100 < pow2 32" unfolding p32 using ca a by linarith
  have qb: "(of_int nb :: rat) / 100 < pow2 32" unfolding p32 using cb b by linarith
  have qs: "(of_int ns :: rat) / 100 < pow2 32" unfolding p32 using cs se a b unfolding u by linarith
  have ra: "\<bar>round64 (of_int na / 100) - of_int na / 100\<bar> \<le> u" using pa(1) qa by (rule err)
  have rb: "\<bar>round64 (of_int nb / 100) - of_int nb / 100\<bar> \<le> u" using pa(2) qb by (rule err)
  have rs: "\<bar>round64 (of_int ns / 100) - of_int ns / 100\<bar> \<le> u" using pa(3) qs by (rule err)
  have "\<bar>round64 (of_int ns / 100) - (round64 (of_int na / 100) + round64 (of_int nb / 100))\<bar>
          < 1 / 100 + 1 / 1000000"
    using n ra rb rs unfolding u by linarith
  then show ?thesis
    unfolding s_def [symmetric] ta tb ts parseFloat_def by simp
qed

section \<open>Facts about the figures of one window\<close>

lemma profitData_nth:
  "k < windowCount timeRange \<Longrightarrow>
   profitData z timeRange now products os rs accts ! k =
     periodData z timeRange (productMap products) os rs accts (periods z timeRange now ! k)"
  unfolding profitData_def by (simp add: length_periods)

lemma length_profitData:
  "length (profitData z timeRange now products os rs accts) = windowCount timeRange"
  unfolding profitData_def by (simp add: length_periods)

lemma periodData_fields:
  "purchaseProfit (periodData z g pm os rs accts p) =
     parseFloat (toFixed2 (fst (purchaseProfitLoss (periodPurchases accts p (nextPeriod z g p)))))"
  "purchaseLoss (periodData z g pm os rs accts p) =
     parseFloat (toFixed2 (snd (purchaseProfitLoss (periodPurchases accts p (nextPeriod z g p)))))"
  "salesProfit (periodData z g pm os rs accts p) =
     parseFloat (toFixed2 (fst (salesProfitLoss (grossRevenue (periodOrders os p (nextPeriod z g p)))
        (cogsOf pm (periodOrders os p (nextPeriod z g p)))
        (refundTotal (periodReturns rs p (nextPeriod z g p)))
        (returnedCostOf pm (periodReturns rs p (nextPeriod z g p))))))"
  "salesLoss (periodData z g pm os rs accts p) =
     parseFloat (toFixed2 (snd (salesProfitLoss (grossRevenue (periodOrders os p (nextPeriod z g p)))
        (cogsOf pm (periodOrders os p (nextPeriod z g p)))
        (refundTotal (periodReturns rs p (nextPeriod z g p)))
        (returnedCostOf pm (periodReturns rs p (nextPeriod z g p))))))"
  "totalProfit (periodData z g pm os rs accts p) =
     parseFloat (toFixed2 (add64 (fst (purchaseProfitLoss (periodPurchases accts p (nextPeriod z g p))))
       (fst (salesProfitLoss (grossRevenue (periodOrders os p (nextPeriod z g p)))
        (cogsOf pm (periodOrders os p (nextPeriod z g p)))
        (refundTotal (periodReturns rs p (nextPeriod z g p)))
        (returnedCostOf pm (periodReturns rs p (nextPeriod z g p)))))))"
  "totalLoss (periodData z g pm os rs accts p) =
     parseFloat (toFixed2 (add64 (snd (purchaseProfitLoss (periodPurchases accts p (nextPeriod z g p))))
       (snd (salesProfitLoss (grossRevenue (periodOrders os p (nextPeriod z g p)))
        (cogsOf pm (periodOrders os p (nextPeriod z g p)))
        (refundTotal (periodReturns rs p (nextPeriod z g p)))
        (returnedCostOf pm (periodReturns rs p (nextPeriod z g p)))))))"
  "revenue (periodData z g pm os rs accts p) =
     parseFloat (toFixed2 (sub64 (grossRevenue (periodOrders os p (nextPeriod z g p)))
       (refundTotal (periodReturns rs p (nextPeriod z g p)))))"
  "cost (periodData z g pm os rs accts p) =
     parseFloat (toFixed2 (sub64 (cogsOf pm (periodOrders os p (nextPeriod z g p)))
       (returnedCostOf pm (periodReturns rs p (nextPeriod z g p)))))"
  "orders (periodData z g pm os rs accts p) = length (periodOrders os p (nextPeriod z g p))"
  "returns (periodData z g pm os rs accts p) = length (periodReturns rs p (nextPeriod z g p))"
  "period (periodData z g pm os rs accts p) = format z p (formatString g)"
  unfolding periodData_def Let_def by simp_all

section \<open>Facts about the list of windows\<close>












lemma period_within_span:
  assumes "p \<in> set (periods z timeRange now)"
  shows "spanStart z timeRange now \<le> p" "nextPeriod z timeRange p \<le> spanEnd z timeRange now"
  unfolding spanStart_def spanEnd_def using assms by (simp_all add: Min_le)



lemma filter_span_window:
  fixes f :: "'a \<Rightarrow> int"
  assumes "s \<le> p" "np \<le> e"
  shows "filter (\<lambda>x. p \<le> f x \<and> f x < np) (filter (\<lambda>x. s \<le> f x \<and> f x < e) xs)
       = filter (\<lambda>x. p \<le> f x \<and> f x < np) xs"
  using assms by (induction xs) auto

lemma periodData_span:
  assumes "p \<in> set (periods z timeRange now)"
  shows "periodData z timeRange pm
       (filter (\<lambda>order. spanStart z timeRange now \<le> order_createdAt order
                        \<and> order_createdAt order < spanEnd z timeRange now) os)
       (filter (\<lambda>ret. spanStart z timeRange now \<le> return_createdAt ret
                        \<and> return_createdAt ret < spanEnd z timeRange now) rs)
       (filter (\<lambda>acc. spanStart z timeRange now \<le> transactionDate acc
                        \<and> transactionDate acc < spanEnd z timeRange now) accts) p
     = periodData z timeRange pm os rs accts p"
proof -
  note s = period_within_span [OF assms]
  have o: "periodOrders (filter (\<lambda>order. spanStart z timeRange now \<le> order_createdAt order
                        \<and> order_createdAt order < spanEnd z timeRange now) os) p (nextPeriod z timeRange p)
         = periodOrders os p (nextPeriod z timeRange p)"
    unfolding periodOrders_def using filter_span_window [OF s, of order_createdAt os] by simp
  have r: "periodReturns (filter (\<lambda>ret. spanStart z timeRange now \<le> return_createdAt ret
                        \<and> return_createdAt ret < spanEnd z timeRange now) rs) p (nextPeriod z timeRange p)
         = periodReturns rs p (nextPeriod z timeRange p)"
    unfolding periodReturns_def using filter_span_window [OF s, of return_createdAt rs] by simp
  have a: "periodPurchases (filter (\<lambda>acc. spanStart z timeRange now \<le> transactionDate acc
                        \<and> transactionDate acc < spanEnd z timeRange now) accts) p (nextPeriod z timeRange p)
         = periodPurchases accts p (nextPeriod z timeRange p)"
    unfolding periodPurchases_def using s by (induction accts) auto
  show ?thesis unfolding periodData_def Let_def o r a ..
qed






lemma foldl_add_nat: "foldl (\<lambda>s x. s + f x) a xs = a + sum_list (map f xs)" for a :: nat
  by (rule foldl_add_sum_list)



section \<open>Facts about the last window and the window ends\<close>







section \<open>Facts about the labels\<close>



lemma digits_value_foldl:
  "foldl (\<lambda>v c. 10 * v + digit_value c) a (s @ [c]) = 10 * foldl (\<lambda>v c. 10 * v + digit_value c) a s + digit_value c"
  by simp

























section \<open>Sales profit and loss of a window whose net difference is zero\<close>

text \<open>
  Claim C1 says that a window whose net sales difference is zero has sales profit 0 and
  sales loss 0, as in scenario B: one order of 100.00 for two units of item X (cost
  price 10.00) and, in the same window, one return of two units of X refunded 100.00.
  The page computes something else there. It first sets the pair from the gross
  difference (100 - 20 = 80, a profit) and then assigns it again only when the net
  difference is positive or negative; with a net difference of zero neither branch
  runs and the gross profit stays. The theorem evaluates the page on scenario B: the
  day holds one order and one return, net revenue and net cost are 0, and the sales
  profit reported is 80.
\<close>

theorem scenario_B_reports_gross_sales_profit:
  "orders (last (profitData (fixedOffset 0) Daily scenarioNow scenarioProducts [scenarioOrder] [scenarioReturn] [])) = 1
   \<and> returns (last (profitData (fixedOffset 0) Daily scenarioNow scenarioProducts [scenarioOrder] [scenarioReturn] [])) = 1
   \<and> revenue (last (profitData (fixedOffset 0) Daily scenarioNow scenarioProducts [scenarioOrder] [scenarioReturn] [])) = 0
   \<and> cost (last (profitData (fixedOffset 0) Daily scenarioNow scenarioProducts [scenarioOrder] [scenarioReturn] [])) = 0
   \<and> salesProfit (last (profitData (fixedOffset 0) Daily scenarioNow scenarioProducts [scenarioOrder] [scenarioReturn] [])) = 80
   \<and> salesLoss (last (profitData (fixedOffset 0) Daily scenarioNow scenarioProducts [scenarioOrder] [scenarioReturn] [])) = 0"
  by code_simp

section \<open>At most one of profit and loss\<close>

text \<open>
  Claim C2, as stated, fails for the purchase pair: the page adds the positive profits of
  a window's purchases to \<open>purchaseProfit\<close> and the negative ones to \<open>purchaseLoss\<close>,
  so a window with a purchase of each sign reports both. Here a day with two purchases,
  of profit 5 and -3.
\<close>

theorem purchase_profit_and_loss_both_nonzero:
  "\<not> (purchaseProfit (last (profitData (fixedOffset 0) Daily scenarioNow [] [] [] mixedPurchases)) = 0
      \<or> purchaseLoss (last (profitData (fixedOffset 0) Daily scenarioNow [] [] [] mixedPurchases)) = 0)"
  by code_simp

text \<open>
  Claim C2, amended. For every window, at most one of \<open>salesProfit\<close> and \<open>salesLoss\<close>
  is nonzero. \<open>purchaseProfit\<close> is nonzero only if the window holds a purchase with a
  positive profit, and \<open>purchaseLoss\<close> only if it holds one with a negative profit: at
  most one of the two is nonzero unless the window's purchases have profits of both
  signs. (\<open>profitData\<close> is \<open>periodData\<close> applied to each period, so the statement about
  \<open>periodData\<close> at any start \<open>p\<close> covers every entry of \<open>profitData\<close>, in every time
  zone.)
\<close>

theorem sales_pair_exclusive_purchase_pair_by_sign:
  "(salesProfit (periodData z timeRange pm os rs accts p) = 0
      \<or> salesLoss (periodData z timeRange pm os rs accts p) = 0)
   \<and> (purchaseProfit (periodData z timeRange pm os rs accts p) \<noteq> 0 \<longrightarrow>
        (\<exists>acc\<in>set (periodPurchases accts p (nextPeriod z timeRange p)). profit acc > 0))
   \<and> (purchaseLoss (periodData z timeRange pm os rs accts p) \<noteq> 0 \<longrightarrow>
        (\<exists>acc\<in>set (periodPurchases accts p (nextPeriod z timeRange p)). profit acc < 0))"
proof (intro conjI impI)
  show "salesProfit (periodData z timeRange pm os rs accts p) = 0
      \<or> salesLoss (periodData z timeRange pm os rs accts p) = 0"
    unfolding periodData_fields
    using salesProfitLoss_exclusive by (metis toFixed2_zero parseFloat_zero)
next
  assume "purchaseProfit (periodData z timeRange pm os rs accts p) \<noteq> 0"
  then have "fst (purchaseProfitLoss (periodPurchases accts p (nextPeriod z timeRange p))) \<noteq> 0"
    unfolding periodData_fields by (rule rounded_nonzero_D)
  then show "\<exists>acc\<in>set (periodPurchases accts p (nextPeriod z timeRange p)). profit acc > 0"
    by (rule purchaseProfit_nonzero_D)
next
  assume "purchaseLoss (periodData z timeRange pm os rs accts p) \<noteq> 0"
  then have "snd (purchaseProfitLoss (periodPurchases accts p (nextPeriod z timeRange p))) \<noteq> 0"
    unfolding periodData_fields by (rule rounded_nonzero_D)
  then show "\<exists>acc\<in>set (periodPurchases accts p (nextPeriod z timeRange p)). profit acc < 0"
    by (rule purchaseLoss_nonzero_D)
qed

theorem sales_pair_exclusive_purchase_pair_by_sign_witness:
  "purchaseProfit (periodData (fixedOffset 0) Daily Map.empty [] [] mixedPurchases 1730505600000) \<noteq> 0
   \<and> (\<exists>acc\<in>set (periodPurchases mixedPurchases 1730505600000 (nextPeriod (fixedOffset 0) Daily 1730505600000)). profit acc > 0)
   \<and> purchaseLoss (periodData (fixedOffset 0) Daily Map.empty [] [] mixedPurchases 1730505600000) \<noteq> 0
   \<and> (\<exists>acc\<in>set (periodPurchases mixedPurchases 1730505600000 (nextPeriod (fixedOffset 0) Daily 1730505600000)). profit acc < 0)
   \<and> (salesProfit (periodData (fixedOffset 0) Daily Map.empty [] [] mixedPurchases 1730505600000) = 0
      \<or> salesLoss (periodData (fixedOffset 0) Daily Map.empty [] [] mixedPurchases 1730505600000) = 0)"
proof -
  have a: "purchaseProfit (periodData (fixedOffset 0) Daily Map.empty [] [] mixedPurchases 1730505600000) \<noteq> 0"
    by code_simp
  have b: "purchaseLoss (periodData (fixedOffset 0) Daily Map.empty [] [] mixedPurchases 1730505600000) \<noteq> 0"
    by code_simp
  show ?thesis
    using a b sales_pair_exclusive_purchase_pair_by_sign
      [of "fixedOffset 0" Daily Map.empty "[]" "[]" mixedPurchases 1730505600000]
    by blast
qed

section \<open>Totals after rounding\<close>

text \<open>
  Claim C3, as stated, fails: every field is rounded on its own, and the rounded sum of
  two amounts is not always the sum of the rounded amounts. Here a day with a purchase
  of profit 0.004 and an order of 0.004: both parts round to 0.00, their sum 0.008
  rounds to 0.01. The total differs from the sum of the two fields, taken exactly or
  as the page would add them.
\<close>

theorem rounded_total_is_not_sum_of_rounded_parts:
  "totalProfit (last (profitData (fixedOffset 0) Daily scenarioNow [] [subCentOrder] [] subCentPurchases))
   \<noteq> purchaseProfit (last (profitData (fixedOffset 0) Daily scenarioNow [] [subCentOrder] [] subCentPurchases))
     + salesProfit (last (profitData (fixedOffset 0) Daily scenarioNow [] [subCentOrder] [] subCentPurchases))
   \<and> totalProfit (last (profitData (fixedOffset 0) Daily scenarioNow [] [subCentOrder] [] subCentPurchases))
   \<noteq> add64 (purchaseProfit (last (profitData (fixedOffset 0) Daily scenarioNow [] [subCentOrder] [] subCentPurchases)))
       (salesProfit (last (profitData (fixedOffset 0) Daily scenarioNow [] [subCentOrder] [] subCentPurchases)))"
  by code_simp

text \<open>
  Claim C3, amended. Write \<open>pp\<close>, \<open>pl\<close> for the purchase profit and loss of a window
  before rounding and \<open>sp\<close>, \<open>sl\<close> for its sales profit and loss before rounding
  (\<open>unroundedPurchase\<close>, \<open>unroundedSales\<close>). Each of the six fields is rounded to 2
  decimals on its own: \<open>totalProfit\<close> is the rounding of the binary64 sum of \<open>pp\<close> and
  \<open>sp\<close>, not the sum of the two rounded fields, and likewise \<open>totalLoss\<close>. A total is
  never below either of its two parts. When one of the two unrounded parts is zero
  (a window without purchase profit, or without sales profit) the total is exactly
  the sum of the two fields, whether that sum is taken exactly or in binary64. When
  both unrounded parts are at most \<open>10 ^ 9\<close> the total differs from the sum of the two
  fields by less than 0.010001: by at most a cent, up to the rounding of binary64.
\<close>

theorem total_is_rounded_sum_of_unrounded_parts:
  "totalProfit (periodData z timeRange pm os rs accts p)
     = parseFloat (toFixed2 (add64 (fst (unroundedPurchase z timeRange accts p))
                                   (fst (unroundedSales z timeRange pm os rs p))))
   \<and> totalLoss (periodData z timeRange pm os rs accts p)
     = parseFloat (toFixed2 (add64 (snd (unroundedPurchase z timeRange accts p))
                                   (snd (unroundedSales z timeRange pm os rs p))))
   \<and> purchaseProfit (periodData z timeRange pm os rs accts p)
     = parseFloat (toFixed2 (fst (unroundedPurchase z timeRange accts p)))
   \<and> salesProfit (periodData z timeRange pm os rs accts p)
     = parseFloat (toFixed2 (fst (unroundedSales z timeRange pm os rs p)))
   \<and> purchaseLoss (periodData z timeRange pm os rs accts p)
     = parseFloat (toFixed2 (snd (unroundedPurchase z timeRange accts p)))
   \<and> salesLoss (periodData z timeRange pm os rs accts p)
     = parseFloat (toFixed2 (snd (unroundedSales z timeRange pm os rs p)))
   \<and> purchaseProfit (periodData z timeRange pm os rs accts p)
       \<le> totalProfit (periodData z timeRange pm os rs accts p)
   \<and> salesProfit (periodData z timeRange pm os rs accts p)
       \<le> totalProfit (periodData z timeRange pm os rs accts p)
   \<and> purchaseLoss (periodData z timeRange pm os rs accts p)
       \<le> totalLoss (periodData z timeRange pm os rs accts p)
   \<and> salesLoss (periodData z timeRange pm os rs accts p)
       \<le> totalLoss (periodData z timeRange pm os rs accts p)
   \<and> (fst (unroundedPurchase z timeRange accts p) = 0 \<or> fst (unroundedSales z timeRange pm os rs p) = 0 \<longrightarrow>
        totalProfit (periodData z timeRange pm os rs accts p)
          = purchaseProfit (periodData z timeRange pm os rs accts p)
            + salesProfit (periodData z timeRange pm os rs accts p)
        \<and> totalProfit (periodData z timeRange pm os rs accts p)
          = add64 (purchaseProfit (periodData z timeRange pm os rs accts p))
              (salesProfit (periodData z timeRange pm os rs accts p)))
   \<and> (snd (unroundedPurchase z timeRange accts p) = 0 \<or> snd (unroundedSales z timeRange pm os rs p) = 0 \<longrightarrow>
        totalLoss (periodData z timeRange pm os rs accts p)
          = purchaseLoss (periodData z timeRange pm os rs accts p)
            + salesLoss (periodData z timeRange pm os rs accts p)
        \<and> totalLoss (periodData z timeRange pm os rs accts p)
          = add64 (purchaseLoss (periodData z timeRange pm os rs accts p))
              (salesLoss (periodData z timeRange pm os rs accts p)))
   \<and> (fst (unroundedPurchase z timeRange accts p) \<le> 10 ^ 9
        \<and> fst (unroundedSales z timeRange pm os rs p) \<le> 10 ^ 9 \<longrightarrow>
        \<bar>totalProfit (periodData z timeRange pm os rs accts p)
          - (purchaseProfit (periodData z timeRange pm os rs accts p)
             + salesProfit (periodData z timeRange pm os rs accts p))\<bar> < 1 / 100 + 1 / 10 ^ 6)
   \<and> (snd (unroundedPurchase z timeRange accts p) \<le> 10 ^ 9
        \<and> snd (unroundedSales z timeRange pm os rs p) \<le> 10 ^ 9 \<longrightarrow>
        \<bar>totalLoss (periodData z timeRange pm os rs accts p)
          - (purchaseLoss (periodData z timeRange pm os rs accts p)
             + salesLoss (periodData z timeRange pm os rs accts p))\<bar> < 1 / 100 + 1 / 10 ^ 6)"
proof -
  define pp where "pp = fst (unroundedPurchase z timeRange accts p)"
  define pl where "pl = snd (unroundedPurchase z timeRange accts p)"
  define sp where "sp = fst (unroundedSales z timeRange pm os rs p)"
  define sl where "sl = snd (unroundedSales z timeRange pm os rs p)"
  note d = pp_def pl_def sp_def sl_def unroundedPurchase_def unroundedSales_def
  have f: "totalProfit (periodData z timeRange pm os rs accts p) = parseFloat (toFixed2 (add64 pp sp))"
    "totalLoss (periodData z timeRange pm os rs accts p) = parseFloat (toFixed2 (add64 pl sl))"
    "purchaseProfit (periodData z timeRange pm os rs accts p) = parseFloat (toFixed2 pp)"
    "salesProfit (periodData z timeRange pm os rs accts p) = parseFloat (toFixed2 sp)"
    "purchaseLoss (periodData z timeRange pm os rs accts p) = parseFloat (toFixed2 pl)"
    "salesLoss (periodData z timeRange pm os rs accts p) = parseFloat (toFixed2 sl)"
    unfolding d periodData_fields by (rule refl)+
  have n: "0 \<le> pp" "0 \<le> pl" "0 \<le> sp" "0 \<le> sl"
    unfolding d by (rule purchaseProfitLoss_nonneg salesProfitLoss_nonneg)+
  have r: "round64 pp = pp" "round64 pl = pl" "round64 sp = sp" "round64 sl = sl"
    unfolding d by (rule purchaseProfitLoss_double salesProfitLoss_double)+
  have part: "parseFloat (toFixed2 a) \<le> parseFloat (toFixed2 (add64 a b))"
    "parseFloat (toFixed2 b) \<le> parseFloat (toFixed2 (add64 a b))"
    if "0 \<le> a" "0 \<le> b" "round64 a = a" "round64 b = b" for a b
    using that by (simp_all add: rounded_mono_nonneg add64_ge_left add64_ge_right)
  have zero: "parseFloat (toFixed2 (add64 a b)) = parseFloat (toFixed2 a) + parseFloat (toFixed2 b)
      \<and> parseFloat (toFixed2 (add64 a b)) = add64 (parseFloat (toFixed2 a)) (parseFloat (toFixed2 b))"
    if "a = 0 \<or> b = 0" "round64 a = a" "round64 b = b" for a b
    using that by (rule rounded_total_one_part)
  have cent: "\<bar>parseFloat (toFixed2 (add64 a b)) - (parseFloat (toFixed2 a) + parseFloat (toFixed2 b))\<bar>
      < 1 / 100 + 1 / 10 ^ 6"
    if "0 \<le> a" "0 \<le> b" "a \<le> 10 ^ 9 \<and> b \<le> 10 ^ 9" for a b
    using that by (intro rounded_total_within_cent) simp_all
  show ?thesis
    unfolding f pp_def [symmetric] pl_def [symmetric] sp_def [symmetric] sl_def [symmetric]
    using part [OF n(1) n(3) r(1) r(3)] part [OF n(2) n(4) r(2) r(4)]
      zero [OF _ r(1) r(3)] zero [OF _ r(2) r(4)] cent [OF n(1) n(3)] cent [OF n(2) n(4)]
    by blast
qed

theorem total_is_rounded_sum_of_unrounded_parts_witness:
  "fst (unroundedPurchase (fixedOffset 0) Daily [] 1730505600000) = 0
   \<and> snd (unroundedPurchase (fixedOffset 0) Daily [] 1730505600000) = 0
   \<and> fst (unroundedSales (fixedOffset 0) Daily (productMap scenarioProducts) [scenarioOrder] [] 1730505600000) \<le> 10 ^ 9
   \<and> snd (unroundedSales (fixedOffset 0) Daily (productMap scenarioProducts) [scenarioOrder] [] 1730505600000) \<le> 10 ^ 9
   \<and> \<bar>totalProfit (periodData (fixedOffset 0) Daily (productMap scenarioProducts) [scenarioOrder] [] [] 1730505600000)
          - (purchaseProfit (periodData (fixedOffset 0) Daily (productMap scenarioProducts) [scenarioOrder] [] [] 1730505600000)
             + salesProfit (periodData (fixedOffset 0) Daily (productMap scenarioProducts) [scenarioOrder] [] [] 1730505600000))\<bar>
        < 1 / 100 + 1 / 10 ^ 6
   \<and> totalProfit (periodData (fixedOffset 0) Daily (productMap scenarioProducts) [scenarioOrder] [] [] 1730505600000) = 80
   \<and> purchaseProfit (periodData (fixedOffset 0) Daily (productMap scenarioProducts) [scenarioOrder] [] [] 1730505600000)
       + salesProfit (periodData (fixedOffset 0) Daily (productMap scenarioProducts) [scenarioOrder] [] [] 1730505600000) = 80
   \<and> totalLoss (periodData (fixedOffset 0) Daily (productMap scenarioProducts) [scenarioOrder] [] [] 1730505600000)
       = purchaseLoss (periodData (fixedOffset 0) Daily (productMap scenarioProducts) [scenarioOrder] [] [] 1730505600000)
         + salesLoss (periodData (fixedOffset 0) Daily (productMap scenarioProducts) [scenarioOrder] [] [] 1730505600000)"
proof -
  have a: "fst (unroundedPurchase (fixedOffset 0) Daily [] 1730505600000) = 0" by code_simp
  have b: "snd (unroundedPurchase (fixedOffset 0) Daily [] 1730505600000) = 0" by code_simp
  have v: "totalProfit (periodData (fixedOffset 0) Daily (productMap scenarioProducts) [scenarioOrder] [] [] 1730505600000) = 80"
    by code_simp
  have c: "fst (unroundedSales (fixedOffset 0) Daily (productMap scenarioProducts) [scenarioOrder] [] 1730505600000) \<le> 10 ^ 9"
    "snd (unroundedSales (fixedOffset 0) Daily (productMap scenarioProducts) [scenarioOrder] [] 1730505600000) \<le> 10 ^ 9"
    by code_simp+
  show ?thesis
    using a b c v total_is_rounded_sum_of_unrounded_parts
      [of "fixedOffset 0" Daily "productMap scenarioProducts" "[scenarioOrder]" "[]" "[]" 1730505600000]
    by simp
qed

section \<open>Every record falls in exactly one window\<close>




section \<open>The windows of each granularity\<close>




section \<open>Contiguous windows with distinct labels\<close>




section \<open>Missing cost prices and refund amounts\<close>

text \<open>
  Claim C7. The cost price looked up for an item identifier is zero when no product of the
  catalog has that identifier, and when the product found has no cost price. Lines with
  such an item therefore add nothing to the cost of goods sold or to the returned cost:
  dropping them from every order and every return leaves both sums unchanged. A return
  without a refund amount adds nothing to the refund total. Lookup and sums are total
  functions: there is no input on which they fail. (The sums are sums of binary64
  numbers; adding zero to one of them returns it unchanged.)
\<close>

theorem missing_cost_and_refund_count_as_zero:
  "(k \<notin> product_id ` set products \<longrightarrow> costPriceOf (productMap products) k = 0)
   \<and> (productMap products k = Some p \<and> costPrice p = None \<longrightarrow> costPriceOf (productMap products) k = 0)
   \<and> cogsOf pm (map (\<lambda>order. order\<lparr>order_items :=
          filter (\<lambda>item. \<not> unresolvedCost pm (oi_productId item)) (order_items order)\<rparr>) os) = cogsOf pm os
   \<and> returnedCostOf pm (map (\<lambda>ret. ret\<lparr>return_items :=
          filter (\<lambda>item. \<not> unresolvedCost pm (ri_productId item)) (return_items ret)\<rparr>) rs) = returnedCostOf pm rs
   \<and> refundTotal (filter (\<lambda>ret. refundAmount ret \<noteq> None) rs) = refundTotal rs"
proof (intro conjI impI)
  assume "k \<notin> product_id ` set products"
  then have "productMap products k = None" by (simp add: productMap_None)
  then show "costPriceOf (productMap products) k = 0" unfolding costPriceOf_def by simp
next
  assume "productMap products k = Some p \<and> costPrice p = None"
  then show "costPriceOf (productMap products) k = 0" unfolding costPriceOf_def by simp
next
  show "cogsOf pm (map (\<lambda>order. order\<lparr>order_items :=
          filter (\<lambda>item. \<not> unresolvedCost pm (oi_productId item)) (order_items order)\<rparr>) os) = cogsOf pm os"
    by (rule cogsOf_drop_unresolved)
next
  show "returnedCostOf pm (map (\<lambda>ret. ret\<lparr>return_items :=
          filter (\<lambda>item. \<not> unresolvedCost pm (ri_productId item)) (return_items ret)\<rparr>) rs) = returnedCostOf pm rs"
    by (rule returnedCostOf_drop_unresolved)
next
  show "refundTotal (filter (\<lambda>ret. refundAmount ret \<noteq> None) rs) = refundTotal rs"
    by (rule refundTotal_drop_missing)
qed

theorem missing_cost_and_refund_count_as_zero_witness:
  "''Y'' \<notin> product_id ` set [\<lparr>product_id = ''X'', costPrice = None, stockQuantity = 3\<rparr>]
   \<and> costPriceOf (productMap [\<lparr>product_id = ''X'', costPrice = None, stockQuantity = 3\<rparr>]) ''Y'' = 0
   \<and> productMap [\<lparr>product_id = ''X'', costPrice = None, stockQuantity = 3\<rparr>] ''X''
       = Some \<lparr>product_id = ''X'', costPrice = None, stockQuantity = 3\<rparr>
   \<and> costPrice \<lparr>product_id = ''X'', costPrice = None, stockQuantity = 3\<rparr> = None
   \<and> costPriceOf (productMap [\<lparr>product_id = ''X'', costPrice = None, stockQuantity = 3\<rparr>]) ''X'' = 0
   \<and> refundTotal (filter (\<lambda>ret. refundAmount ret \<noteq> None)
        [\<lparr>return_createdAt = 0, refundAmount = None, return_items = []\<rparr>,
         \<lparr>return_createdAt = 0, refundAmount = Some 7, return_items = []\<rparr>])
       = refundTotal
        [\<lparr>return_createdAt = 0, refundAmount = None, return_items = []\<rparr>,
         \<lparr>return_createdAt = 0, refundAmount = Some 7, return_items = []\<rparr>]"
proof -
  have a: "''Y'' \<notin> product_id ` set [\<lparr>product_id = ''X'', costPrice = None, stockQuantity = 3\<rparr>]"
    by simp
  have b: "productMap [\<lparr>product_id = ''X'', costPrice = None, stockQuantity = 3\<rparr>] ''X''
       = Some \<lparr>product_id = ''X'', costPrice = None, stockQuantity = 3\<rparr>
     \<and> costPrice \<lparr>product_id = ''X'', costPrice = None, stockQuantity = 3\<rparr> = None"
    by (simp add: productMap_def)
  show ?thesis
    using a b
      missing_cost_and_refund_count_as_zero
        [of "''Y''" "[\<lparr>product_id = ''X'', costPrice = None, stockQuantity = 3\<rparr>]"
            "\<lparr>product_id = ''X'', costPrice = None, stockQuantity = 3\<rparr>" Map.empty "[]"
            "[\<lparr>return_createdAt = 0, refundAmount = None, return_items = []\<rparr>,
              \<lparr>return_createdAt = 0, refundAmount = Some 7, return_items = []\<rparr>]"]
      missing_cost_and_refund_count_as_zero
        [of "''X''" "[\<lparr>product_id = ''X'', costPrice = None, stockQuantity = 3\<rparr>]"
            "\<lparr>product_id = ''X'', costPrice = None, stockQuantity = 3\<rparr>" Map.empty "[]" "[]"]
    by blast
qed

section \<open>Margin and return rate\<close>

text \<open>
  Claim C8. The statistics add up the fields of the entries of \<open>profitData\<close>: the total
  revenue is the sum of the revenue fields, the net profit is the sum of the purchase
  and sales profits minus the sum of the purchase and sales losses, and the totals of
  orders and returns are the sums of the counts. The profit margin is the net profit
  divided by the total revenue, times 100, when the total revenue is positive, and 0
  otherwise; the return rate is the number of returns divided by the number of orders,
  times 100, when there is an order, and 0 otherwise (sums, quotients and products of
  numbers, each rounded to binary64). Both are always a number (\<open>Some\<close>): the quotient
  is only taken of a divisor that is not zero. In particular the margin is 0 when the
  total revenue is 0, whatever the profits and losses are.
\<close>

theorem margin_and_return_rate_guarded:
  "totalRevenue (statistics pd products) = foldl (\<lambda>sum d. add64 sum (revenue d)) 0 pd
   \<and> netProfit (statistics pd products)
       = sub64 (add64 (foldl (\<lambda>sum d. add64 sum (purchaseProfit d)) 0 pd)
                      (foldl (\<lambda>sum d. add64 sum (salesProfit d)) 0 pd))
               (add64 (foldl (\<lambda>sum d. add64 sum (purchaseLoss d)) 0 pd)
                      (foldl (\<lambda>sum d. add64 sum (salesLoss d)) 0 pd))
   \<and> totalOrders (statistics pd products) = sum_list (map orders pd)
   \<and> totalReturns (statistics pd products) = sum_list (map returns pd)
   \<and> profitMargin (statistics pd products) =
     Some (if totalRevenue (statistics pd products) > 0
           then mul64 (round64 (netProfit (statistics pd products) / totalRevenue (statistics pd products))) 100
           else 0)
   \<and> returnRate (statistics pd products) =
     Some (if totalOrders (statistics pd products) > 0
           then mul64 (round64 (of_nat (totalReturns (statistics pd products))
                                / of_nat (totalOrders (statistics pd products)))) 100
           else 0)
   \<and> (totalRevenue (statistics pd products) = 0 \<longrightarrow> profitMargin (statistics pd products) = Some 0)
   \<and> (totalOrders (statistics pd products) = 0 \<longrightarrow> returnRate (statistics pd products) = Some 0)"
proof (intro conjI)
  show "totalOrders (statistics pd products) = sum_list (map orders pd)"
    "totalReturns (statistics pd products) = sum_list (map returns pd)"
    unfolding statistics_def Let_def by (simp_all add: foldl_add_sum_list)
qed (simp_all add: statistics_def Let_def jsDivide_def)

theorem margin_and_return_rate_guarded_witness:
  "totalRevenue (statistics [profitableWindow] []) = 100
   \<and> netProfit (statistics [profitableWindow] []) = 80
   \<and> profitMargin (statistics [profitableWindow] []) = Some 80
   \<and> totalOrders (statistics [profitableWindow] []) = 4
   \<and> totalReturns (statistics [profitableWindow] []) = 1
   \<and> returnRate (statistics [profitableWindow] []) = Some 25
   \<and> totalRevenue (statistics [idleWindow] []) = 0
   \<and> netProfit (statistics [idleWindow] []) = 3
   \<and> profitMargin (statistics [idleWindow] []) = Some 0
   \<and> totalOrders (statistics [idleWindow] []) = 0
   \<and> returnRate (statistics [idleWindow] []) = Some 0"
proof -
  have a: "totalRevenue (statistics [profitableWindow] []) = 100
     \<and> netProfit (statistics [profitableWindow] []) = 80
     \<and> totalOrders (statistics [profitableWindow] []) = 4
     \<and> totalReturns (statistics [profitableWindow] []) = 1"
    by code_simp
  have b: "totalRevenue (statistics [idleWindow] []) = 0
     \<and> netProfit (statistics [idleWindow] []) = 3
     \<and> totalOrders (statistics [idleWindow] []) = 0"
    by code_simp
  have c: "mul64 (round64 (80 / 100)) 100 = 80" "mul64 (round64 (of_nat 1 / of_nat 4)) 100 = 25"
    by code_simp+
  show ?thesis
    using a b c margin_and_return_rate_guarded [of "[profitableWindow]" "[]"]
      margin_and_return_rate_guarded [of "[idleWindow]" "[]"]
    by simp
qed

section \<open>Net revenue and net cost\<close>




section \<open>Records outside every window\<close>

text \<open>
  Claim C10. Orders, returns and ledger transactions whose instant is before the earliest
  start of a window, or at or after the latest end, change nothing: removing them from
  the input leaves every entry of \<open>profitData\<close> and the statistics as they are, in every
  time zone. No error is raised for them; the filters just do not select them.
\<close>

theorem records_outside_all_windows_are_ignored:
  "profitData z timeRange now products
       (filter (\<lambda>order. spanStart z timeRange now \<le> order_createdAt order
                        \<and> order_createdAt order < spanEnd z timeRange now) os)
       (filter (\<lambda>ret. spanStart z timeRange now \<le> return_createdAt ret
                        \<and> return_createdAt ret < spanEnd z timeRange now) rs)
       (filter (\<lambda>acc. spanStart z timeRange now \<le> transactionDate acc
                        \<and> transactionDate acc < spanEnd z timeRange now) accts)
     = profitData z timeRange now products os rs accts
   \<and> statistics (profitData z timeRange now products
       (filter (\<lambda>order. spanStart z timeRange now \<le> order_createdAt order
                        \<and> order_createdAt order < spanEnd z timeRange now) os)
       (filter (\<lambda>ret. spanStart z timeRange now \<le> return_createdAt ret
                        \<and> return_createdAt ret < spanEnd z timeRange now) rs)
       (filter (\<lambda>acc. spanStart z timeRange now \<le> transactionDate acc
                        \<and> transactionDate acc < spanEnd z timeRange now) accts)) products
     = statistics (profitData z timeRange now products os rs accts) products"
proof -
  have "profitData z timeRange now products
       (filter (\<lambda>order. spanStart z timeRange now \<le> order_createdAt order
                        \<and> order_createdAt order < spanEnd z timeRange now) os)
       (filter (\<lambda>ret. spanStart z timeRange now \<le> return_createdAt ret
                        \<and> return_createdAt ret < spanEnd z timeRange now) rs)
       (filter (\<lambda>acc. spanStart z timeRange now \<le> transactionDate acc
                        \<and> transactionDate acc < spanEnd z timeRange now) accts)
     = profitData z timeRange now products os rs accts"
    unfolding profitData_def by (rule map_cong) (simp_all add: periodData_span)
  then show ?thesis by simp
qed

theorem records_outside_all_windows_are_ignored_witness:
  "\<not> spanStart (fixedOffset 0) Daily scenarioNow \<le> order_createdAt oldOrder
   \<and> profitData (fixedOffset 0) Daily scenarioNow scenarioProducts [scenarioOrder] [] []
     = profitData (fixedOffset 0) Daily scenarioNow scenarioProducts [oldOrder, scenarioOrder] [] []
   \<and> totalOrders (statistics (profitData (fixedOffset 0) Daily scenarioNow scenarioProducts [oldOrder, scenarioOrder] [] []) scenarioProducts) = 1"
proof -
  have a: "\<not> spanStart (fixedOffset 0) Daily scenarioNow \<le> order_createdAt oldOrder" by code_simp
  have b: "spanStart (fixedOffset 0) Daily scenarioNow \<le> order_createdAt scenarioOrder
     \<and> order_createdAt scenarioOrder < spanEnd (fixedOffset 0) Daily scenarioNow" by code_simp
  have c: "totalOrders (statistics (profitData (fixedOffset 0) Daily scenarioNow scenarioProducts [scenarioOrder] [] []) scenarioProducts) = 1"
    by code_simp
  show ?thesis
    using a b c records_outside_all_windows_are_ignored
      [of "fixedOffset 0" Daily scenarioNow scenarioProducts "[oldOrder, scenarioOrder]" "[]" "[]"]
    by simp
qed


end
